theory Spec2Isabelle
  imports Complex_Main "HOL-Library.Word"
begin

section \<open>CloudDrop: a shallow embedding of the transfer engine and the signaling hub\<close>

text \<open>
  The definitions below follow the JavaScript and TypeScript sources function by function
  and keep their names. Effects are explicit: every function takes the object state it
  reads and returns the state it leaves, a thrown exception is the \<open>Inl\<close> branch of a sum,
  frames handed to the signaling socket or to the data channel and calls of observer
  callbacks are appended to a log in the order the source issues them. Values that the
  source obtains from its environment (random initialisation vectors, the clock, frames
  that arrive while a function is suspended at an \<open>await\<close>) are arguments.
\<close>

type_synonym byte = "8 word"
type_synonym bytes = "byte list"

subsection \<open>JSON values as the hub and the client read them\<close>

datatype json =
    JUndefined
  | JNull
  | JBool bool
  | JNum int
  | JStr string
  | JArr "json list"
  | JObj "(string \<times> json) list"

text \<open>JavaScript truthiness (\<open>!v\<close> is the negation). Numbers matter only through it.\<close>

fun truthy :: "json \<Rightarrow> bool" where
  "truthy JUndefined = False"
| "truthy JNull = False"
| "truthy (JBool b) = b"
| "truthy (JNum n) = (n \<noteq> 0)"
| "truthy (JStr s) = (s \<noteq> [])"
| "truthy (JArr _) = True"
| "truthy (JObj _) = True"

fun typeof :: "json \<Rightarrow> string" where
  "typeof JUndefined = ''undefined''"
| "typeof JNull = ''object''"
| "typeof (JBool _) = ''boolean''"
| "typeof (JNum _) = ''number''"
| "typeof (JStr _) = ''string''"
| "typeof (JArr _) = ''object''"
| "typeof (JObj _) = ''object''"

text \<open>
  Reading a property that is a key of the parsed JSON: \<open>None\<close> is the TypeError of a read
  on \<open>null\<close> or \<open>undefined\<close>; a key that is absent reads as \<open>undefined\<close>; of a key
  that \<open>JSON.parse\<close> met twice the last value stands.
\<close>

fun getProp :: "json \<Rightarrow> string \<Rightarrow> json option" where
  "getProp JUndefined k = None"
| "getProp JNull k = None"
| "getProp (JObj kvs) k = Some (case map_of (rev kvs) k of None \<Rightarrow> JUndefined | Some v \<Rightarrow> v)"
| "getProp _ k = Some JUndefined"

section \<open>Signaling hub: the room's password gate (room.ts)\<close>

record request =
  reqMethod :: string  \<comment> \<open>\<open>request.method\<close>\<close>
  reqBody :: "json option"  \<comment> \<open>the result of \<open>request.json()\<close>; \<open>None\<close> when it rejects\<close>

datatype payload = PlainText string | JsonBody "(string \<times> json) list"

record response =
  status :: nat
  body :: payload

record room =
  passwordHash :: "string option"
  storage :: "string \<rightharpoonup> string"

text \<open>The constructor loads the hash from durable storage (\<open>get(...) || null\<close>).\<close>

definition Room_constructor :: "(string \<rightharpoonup> string) \<Rightarrow> room" where
  "Room_constructor st =
     \<lparr>passwordHash = (case st ''passwordHash'' of
                        None \<Rightarrow> None
                      | Some h \<Rightarrow> if h = [] then None else Some h),
      storage = st\<rparr>"

definition handleCheckPassword :: "room \<Rightarrow> response" where
  "handleCheckPassword r =
     \<lparr>status = 200, body = JsonBody [(''hasPassword'', JBool (passwordHash r \<noteq> None))]\<rparr>"

definition failure :: "string \<Rightarrow> response" where
  "failure msg = \<lparr>status = 400, body = JsonBody [(''success'', JBool False), (''error'', JStr msg)]\<rparr>"

definition handleSetPassword :: "room \<Rightarrow> request \<Rightarrow> response \<times> room" where
  "handleSetPassword r req =
     (if reqMethod req \<noteq> ''POST'' then (\<lparr>status = 405, body = PlainText ''Method Not Allowed''\<rparr>, r)
      else if passwordHash r \<noteq> None then (failure ''Password already set for this room'', r)
      else (case reqBody req of
              None \<Rightarrow> (failure ''Invalid request body'', r)
            | Some b \<Rightarrow>
                (case getProp b ''passwordHash'' of
                   None \<Rightarrow> (failure ''Invalid request body'', r)
                 | Some h \<Rightarrow>
                     if \<not> truthy h \<or> typeof h \<noteq> ''string'' then (failure ''Invalid password hash'', r)
                     else (case h of
                             JStr s \<Rightarrow>
                               (\<lparr>status = 200, body = JsonBody [(''success'', JBool True)]\<rparr>,
                                r\<lparr>passwordHash := Some s,
                                  storage := (storage r)(''passwordHash'' \<mapsto> s)\<rparr>)
                           | _ \<Rightarrow> (failure ''Invalid password hash'', r)))))"

text \<open>
  What happens to a room over its lifetime: it serves set-password requests, and the
  runtime may evict the object and construct it again from its storage.
\<close>

datatype room_event = SetPassword request | Evict

fun roomStep :: "room \<Rightarrow> room_event \<Rightarrow> response option \<times> room" where
  "roomStep r (SetPassword req) = (Some (fst (handleSetPassword r req)), snd (handleSetPassword r req))"
| "roomStep r Evict = (None, Room_constructor (storage r))"

fun roomRun :: "room \<Rightarrow> room_event list \<Rightarrow> response option list \<times> room" where
  "roomRun r [] = ([], r)"
| "roomRun r (e # es) =
     (fst (roomStep r e) # fst (roomRun (snd (roomStep r e)) es), snd (roomRun (snd (roomStep r e)) es))"

text \<open>The \<open>success\<close> member of a JSON reply.\<close>

fun successOf :: "response option \<Rightarrow> json" where
  "successOf (Some \<lparr>status = _, body = JsonBody kvs\<rparr>) =
     (case map_of kvs ''success'' of None \<Rightarrow> JUndefined | Some v \<Rightarrow> v)"
| "successOf _ = JUndefined"

text \<open>The events of a list that are POST requests, and the replies they got.\<close>

fun postReplies :: "room_event list \<Rightarrow> response option list \<Rightarrow> response option list" where
  "postReplies (SetPassword req # es) (rp # rps) =
     (if reqMethod req = ''POST'' then rp # postReplies es rps else postReplies es rps)"
| "postReplies (Evict # es) (rp # rps) = postReplies es rps"
| "postReplies _ _ = []"

text \<open>Example values: a fresh room and a well-formed set-password request.\<close>

definition demoRoom :: room where
  "demoRoom = \<lparr>passwordHash = None, storage = Map.empty\<rparr>"

definition demoSet :: "string \<Rightarrow> request" where
  "demoSet h = \<lparr>reqMethod = ''POST'', reqBody = Some (JObj [(''passwordHash'', JStr h)])\<rparr>"

section \<open>What the browser and the worker runtime provide\<close>

text \<open>
  The sources call the Web Crypto API, \<open>btoa\<close> and \<open>atob\<close>; none of them is code of the
  repository. They are the fields of a record that every function below takes as its
  first argument, so a theorem holds for whatever implementation stands behind them, and
  says so when it needs a property of one. A key object is its raw key material.
\<close>

record platform =
  aesGcmEncrypt :: "bytes \<Rightarrow> bytes \<Rightarrow> bytes \<Rightarrow> bytes"
    \<comment> \<open>key, iv, plaintext; the authentication tag is part of the result\<close>
  aesGcmDecrypt :: "bytes \<Rightarrow> bytes \<Rightarrow> bytes \<Rightarrow> bytes option"
    \<comment> \<open>key, iv, ciphertext; \<open>None\<close> is the OperationError of a failed authentication\<close>
  pbkdf2Sha256 :: "nat \<Rightarrow> bytes \<Rightarrow> bytes \<Rightarrow> bytes"
    \<comment> \<open>iterations, password, salt; a 256-bit AES-GCM key\<close>
  sha256 :: "bytes \<Rightarrow> bytes"
  btoa :: "bytes \<Rightarrow> string"
  atob :: "string \<Rightarrow> bytes option"
    \<comment> \<open>\<open>None\<close> is the InvalidCharacterError of a string that is not base64\<close>

text \<open>AES-GCM decrypts what it encrypted under the same key and IV.\<close>

definition aeadCorrect :: "platform \<Rightarrow> bool" where
  "aeadCorrect W = (\<forall>k iv p. aesGcmDecrypt W k iv (aesGcmEncrypt W k iv p) = Some p)"

text \<open>
  The ciphertext of AES-GCM carries its authentication tag; the sources give no
  \<open>tagLength\<close>, so the tag has the default 128 bits.
\<close>

definition gcmTagged :: "platform \<Rightarrow> bool" where
  "gcmTagged W = (\<forall>k iv p. length (aesGcmEncrypt W k iv p) = length p + 16)"

text \<open>\<open>TextEncoder.encode\<close> on a string of code units below 256.\<close>

definition utf8 :: "string \<Rightarrow> bytes" where
  "utf8 s = concat (map (\<lambda>c. let n = (of_char c :: nat) in
                                if n < 128 then [of_nat n]
                                else [of_nat (192 + n div 64), of_nat (128 + n mod 64)]) s)"

text \<open>\<open>b.toString(16).padStart(2, '0')\<close>, joined.\<close>

definition hexDigit :: "nat \<Rightarrow> char" where
  "hexDigit n = ''0123456789abcdef'' ! (n mod 16)"

definition toHex :: "bytes \<Rightarrow> string" where
  "toHex bs = concat (map (\<lambda>b. [hexDigit (unat b div 16), hexDigit (unat b)]) bs)"

text \<open>\<open>Uint8Array.prototype.slice(a, b)\<close> for \<open>0 \<le> a\<close>: a copy, clamped to the array.\<close>

definition slice :: "'a list \<Rightarrow> nat \<Rightarrow> nat \<Rightarrow> 'a list" where
  "slice xs a b = take (b - a) (drop a xs)"

text \<open>
  \<open>crypto.getRandomValues(new Uint8Array(12))\<close>: twelve bytes, whatever they are. The 96
  random bits are an argument; these are their bytes.
\<close>

definition ivBytes :: "96 word \<Rightarrow> bytes" where
  "ivBytes r = map (\<lambda>i. ucast (drop_bit (8 * i) r)) [0..<12]"

section \<open>Crypto envelope (crypto.js)\<close>

datatype error =
    NoSharedKey string            \<comment> \<open>\<open>No shared key for peer: ...\<close>\<close>
  | OperationError                \<comment> \<open>AES-GCM refused the ciphertext\<close>
  | IvRequired                    \<comment> \<open>\<open>IV is required for room key decryption\<close>\<close>
  | PasswordAndRoomCodeRequired   \<comment> \<open>\<open>Password and room code are required\<close>\<close>
  | InvalidCharacterError         \<comment> \<open>\<open>atob\<close> refused the string\<close>
  | TypeError                     \<comment> \<open>a property read on \<open>undefined\<close>\<close>
  | TransferCancelled             \<comment> \<open>the sender's cancellation error\<close>
  | RetransmitExhausted           \<comment> \<open>the sender's error after MAX_CHUNK_RETRIES\<close>
  | TransferTimeout               \<comment> \<open>the sender's error after TRANSFER_TIMEOUT without an ACK\<close>
  | RangeError                    \<comment> \<open>\<open>Array(n)\<close> with a negative \<open>n\<close>\<close>
  | EncryptionKeyTimeout          \<comment> \<open>\<open>Encryption key timeout\<close>, of \<open>waitForEncryptionKey\<close>\<close>

text \<open>
  The fields of \<open>CryptoManager\<close> that chunk encryption reads. The ECDH key pair is left
  out: a peer's derived key is what \<open>sharedSecrets\<close> holds.
\<close>

record cryptoManager =
  sharedSecrets :: "string \<rightharpoonup> bytes"
  roomKey :: "bytes option"
  roomPasswordSet :: bool

definition hasSharedSecret :: "cryptoManager \<Rightarrow> string \<Rightarrow> bool" where
  "hasSharedSecret cm peerId = (sharedSecrets cm peerId \<noteq> None)"

definition hasRoomPassword :: "cryptoManager \<Rightarrow> bool" where
  "hasRoomPassword cm = (roomPasswordSet cm \<and> roomKey cm \<noteq> None)"

definition encrypt :: "platform \<Rightarrow> cryptoManager \<Rightarrow> string \<Rightarrow> 96 word \<Rightarrow> bytes \<Rightarrow> error + bytes \<times> bytes" where
  "encrypt W cm peerId rnd dat =
     (case sharedSecrets cm peerId of
        None \<Rightarrow> Inl (NoSharedKey peerId)
      | Some sharedKey \<Rightarrow> Inr (aesGcmEncrypt W sharedKey (ivBytes rnd) dat, ivBytes rnd))"

definition decrypt :: "platform \<Rightarrow> cryptoManager \<Rightarrow> string \<Rightarrow> bytes \<Rightarrow> bytes \<Rightarrow> error + bytes" where
  "decrypt W cm peerId encryptedData iv =
     (case sharedSecrets cm peerId of
        None \<Rightarrow> Inl (NoSharedKey peerId)
      | Some sharedKey \<Rightarrow>
          (case aesGcmDecrypt W sharedKey iv encryptedData of
             None \<Rightarrow> Inl OperationError
           | Some decrypted \<Rightarrow> Inr decrypted))"

definition encryptWithRoomKey :: "platform \<Rightarrow> cryptoManager \<Rightarrow> 96 word \<Rightarrow> bytes \<Rightarrow> bytes \<times> bytes option" where
  "encryptWithRoomKey W cm rnd dat =
     (case roomKey cm of
        Some k \<Rightarrow> if roomPasswordSet cm then (aesGcmEncrypt W k (ivBytes rnd) dat, Some (ivBytes rnd))
                  else (dat, None)
      | None \<Rightarrow> (dat, None))"

definition decryptWithRoomKey :: "platform \<Rightarrow> cryptoManager \<Rightarrow> bytes \<Rightarrow> bytes option \<Rightarrow> error + bytes" where
  "decryptWithRoomKey W cm encryptedData iv =
     (case roomKey cm of
        None \<Rightarrow> Inr encryptedData
      | Some k \<Rightarrow>
          if \<not> roomPasswordSet cm then Inr encryptedData
          else (case iv of
                  None \<Rightarrow> Inl IvRequired
                | Some v \<Rightarrow>
                    (case aesGcmDecrypt W k v encryptedData of
                       None \<Rightarrow> Inl OperationError
                     | Some decrypted \<Rightarrow> Inr decrypted)))"

text \<open>
  \<open>encryptChunk\<close>: the room layer when a room password is set, then the peer layer, then
  the frame \<open>[room_iv_length][room_iv][peer_iv][encrypted_data]\<close>. Storing the length
  into a \<open>Uint8Array\<close> keeps its low eight bits.
\<close>

definition encryptChunk :: "platform \<Rightarrow> cryptoManager \<Rightarrow> string \<Rightarrow> 96 word \<Rightarrow> 96 word \<Rightarrow> bytes \<Rightarrow> error + bytes" where
  "encryptChunk W cm peerId roomRnd peerRnd chunk =
     (let (dat, roomIv) = (if hasRoomPassword cm then encryptWithRoomKey W cm roomRnd chunk
                           else (chunk, None))
      in case encrypt W cm peerId peerRnd dat of
           Inl e \<Rightarrow> Inl e
         | Inr (encrypted, peerIv) \<Rightarrow>
             (let roomIvLength = (case roomIv of None \<Rightarrow> 0 | Some v \<Rightarrow> length v)
              in Inr ([of_nat roomIvLength] @ (case roomIv of None \<Rightarrow> [] | Some v \<Rightarrow> v)
                        @ peerIv @ encrypted)))"

text \<open>
  \<open>decryptChunk\<close>: \<open>dataArray[0]\<close> is \<open>undefined\<close> on an empty array, and
  \<open>undefined > 0\<close> is false. The room layer is taken off only under the guard
  \<open>this.hasRoomPassword() && roomIv\<close>.
\<close>

definition decryptChunk :: "platform \<Rightarrow> cryptoManager \<Rightarrow> string \<Rightarrow> bytes \<Rightarrow> error + bytes" where
  "decryptChunk W cm peerId dat =
     (let roomIvLength = (case dat of [] \<Rightarrow> None | b # _ \<Rightarrow> Some (unat b));
          n = (case roomIvLength of None \<Rightarrow> 0 | Some l \<Rightarrow> l);
          roomIv = (if 0 < n then Some (slice dat 1 (1 + n)) else None);
          offset = (if 0 < n then 1 + n else 1);
          peerIv = slice dat offset (offset + 12);
          encrypted = drop (offset + 12) dat
      in case decrypt W cm peerId encrypted peerIv of
           Inl e \<Rightarrow> Inl e
         | Inr decrypted \<Rightarrow>
             if hasRoomPassword cm \<and> roomIv \<noteq> None then decryptWithRoomKey W cm decrypted roomIv
             else Inr decrypted)"

definition removePeer :: "cryptoManager \<Rightarrow> string \<Rightarrow> cryptoManager" where
  "removePeer cm peerId = cm\<lparr>sharedSecrets := (sharedSecrets cm)(peerId := None)\<rparr>"

definition deriveRoomKeyFromPassword :: "platform \<Rightarrow> string \<Rightarrow> string \<Rightarrow> bytes" where
  "deriveRoomKeyFromPassword W password roomCode =
     pbkdf2Sha256 W 100000 (utf8 password) (utf8 (''clouddrop-room-'' @ roomCode))"

text \<open>\<open>setRoomPassword\<close>: its only check is \<open>!password || !roomCode\<close>.\<close>

definition setRoomPassword :: "platform \<Rightarrow> cryptoManager \<Rightarrow> string \<Rightarrow> string \<Rightarrow> error + cryptoManager" where
  "setRoomPassword W cm password roomCode =
     (if password = [] \<or> roomCode = [] then Inl PasswordAndRoomCodeRequired
      else Inr (cm\<lparr>roomKey := Some (deriveRoomKeyFromPassword W password roomCode),
                  roomPasswordSet := True\<rparr>))"

definition clearRoomPassword :: "cryptoManager \<Rightarrow> cryptoManager" where
  "clearRoomPassword cm = cm\<lparr>roomKey := None, roomPasswordSet := False\<rparr>"

definition hashPasswordForServer :: "platform \<Rightarrow> string \<Rightarrow> string \<Rightarrow> string" where
  "hashPasswordForServer W password roomCode =
     toHex (sha256 W (utf8 (password @ '':'' @ roomCode @ '':clouddrop'')))"

subsection \<open>Creating a secure room (app.js)\<close>

definition PASSWORD_MIN_LENGTH :: nat where
  "PASSWORD_MIN_LENGTH = 6"

definition isAlnum :: "char \<Rightarrow> bool" where
  "isAlnum c = (let n = (of_char c :: nat) in
                  (48 \<le> n \<and> n \<le> 57) \<or> (65 \<le> n \<and> n \<le> 90) \<or> (97 \<le> n \<and> n \<le> 122))"

text \<open>\<open>/^[a-zA-Z0-9]{6}$/\<close>\<close>

definition CODE_PATTERN :: "string \<Rightarrow> bool" where
  "CODE_PATTERN s = (length s = 6 \<and> list_all isAlnum s)"

record app =
  roomPassword :: "string option"
  roomPasswordHash :: "string option"
  isSecureRoom :: bool

record secureRoomResult =
  created :: bool                       \<comment> \<open>the value \<open>createSecureRoom\<close> returns\<close>
  toasts :: "string list"               \<comment> \<open>the message keys shown as error toasts\<close>
  posted :: "(string \<times> string) option"  \<comment> \<open>room code and hash of the POST to the hub, if it was made\<close>
  cmAfter :: cryptoManager
  appAfter :: app

text \<open>
  \<open>createSecureRoom\<close>. The hub's parsed reply to the POST is the argument \<open>reply\<close>
  (\<open>None\<close> when \<open>fetch\<close> or \<open>response.json()\<close> rejects); every exception inside the
  \<open>try\<close> ends in the same toast.
\<close>

definition createSecureRoom ::
    "platform \<Rightarrow> (string \<Rightarrow> string \<Rightarrow> json option) \<Rightarrow> cryptoManager \<Rightarrow> app \<Rightarrow> string \<Rightarrow> string \<Rightarrow> secureRoomResult" where
  "createSecureRoom W reply cm a roomCode password =
     (if password = [] \<or> length password < PASSWORD_MIN_LENGTH then
        \<lparr>created = False, toasts = [''room.passwordMinLength''], posted = None, cmAfter = cm, appAfter = a\<rparr>
      else if roomCode = [] \<or> \<not> CODE_PATTERN roomCode then
        \<lparr>created = False, toasts = [''room.invalidCode''], posted = None, cmAfter = cm, appAfter = a\<rparr>
      else
        (let h = hashPasswordForServer W password roomCode;
             failed = \<lparr>created = False, toasts = [''errors.connectionFailed''],
                       posted = Some (roomCode, h), cmAfter = cm, appAfter = a\<rparr>
         in case reply roomCode h of
              None \<Rightarrow> failed
            | Some result \<Rightarrow>
                (case getProp result ''success'' of
                   None \<Rightarrow> failed
                 | Some s \<Rightarrow>
                     if \<not> truthy s then failed
                     else (case setRoomPassword W cm password roomCode of
                             Inl e \<Rightarrow> failed
                           | Inr cm' \<Rightarrow>
                               \<lparr>created = True, toasts = [], posted = Some (roomCode, h),
                                cmAfter = cm',
                                appAfter = a\<lparr>roomPassword := Some password,
                                             roomPasswordHash := Some h,
                                             isSecureRoom := True\<rparr>\<rparr>))))"

text \<open>
  A stand-in platform to instantiate theorems at: an authenticated cipher with a 16-byte
  tag (it satisfies \<open>aeadCorrect\<close>; it is no cipher to use), a 32-byte digest and a key
  derivation that only concatenate, and an encoding of bytes as characters.
\<close>

definition demoTag :: "bytes \<Rightarrow> bytes \<Rightarrow> bytes" where
  "demoTag k iv = take 16 (k @ iv @ replicate 16 0)"

definition demoPlatform :: platform where
  "demoPlatform =
     \<lparr>aesGcmEncrypt = (\<lambda>k iv p. map (\<lambda>b. b + 1) p @ demoTag k iv),
      aesGcmDecrypt = (\<lambda>k iv c.
         if 16 \<le> length c \<and> drop (length c - 16) c = demoTag k iv
         then Some (map (\<lambda>b. b - 1) (take (length c - 16) c)) else None),
      pbkdf2Sha256 = (\<lambda>n pw salt. take 32 (pw @ salt @ replicate 32 0)),
      sha256 = (\<lambda>m. take 32 (m @ replicate 32 0)),
      btoa = map (\<lambda>b. char_of (unat b)),
      atob = (\<lambda>s. Some (map (\<lambda>c. of_nat (of_char c)) s))\<rparr>"

definition demoSender :: cryptoManager where
  "demoSender = \<lparr>sharedSecrets = [''bob'' \<mapsto> [1, 2, 3, 4]], roomKey = Some [9, 9], roomPasswordSet = True\<rparr>"

definition demoReceiver :: cryptoManager where
  "demoReceiver = \<lparr>sharedSecrets = [''alice'' \<mapsto> [1, 2, 3, 4]], roomKey = None, roomPasswordSet = False\<rparr>"

definition demoChunk :: bytes where
  "demoChunk = 12 # replicate 12 1 @ replicate 12 2 @
                 aesGcmEncrypt demoPlatform [1, 2, 3, 4] (replicate 12 2) [7, 7, 7]"

section \<open>Transfer protocol and connection engine (webrtc.js)\<close>

subsection \<open>Configuration (config.js)\<close>

definition CHUNK_SIZE :: nat where "CHUNK_SIZE = 64 * 1024"
definition P2P_RETRY_INITIAL_DELAY :: nat where "P2P_RETRY_INITIAL_DELAY = 10000"
definition WINDOW_SIZE :: nat where "WINDOW_SIZE = 10"
definition ACK_TIMEOUT :: nat where "ACK_TIMEOUT = 5000"
definition MAX_CHUNK_RETRIES :: nat where "MAX_CHUNK_RETRIES = 3"
definition ACK_BATCH_SIZE :: nat where "ACK_BATCH_SIZE = 5"
definition TRANSFER_TIMEOUT :: nat where "TRANSFER_TIMEOUT = 30000"

subsection \<open>Frames\<close>

text \<open>
  The payload of a \<open>relay-data\<close> frame. A receiver reads these from parsed JSON, so a
  member that the code tests for absence is an option (\<open>None\<close> is \<open>undefined\<close>).
\<close>

datatype relayFrame =
    RFileStart (rfFileId: string) (rfName: string) (rfSize: nat) (rfMimeType: string)
      (rfTotalChunks: "nat option")
  | RFileEnd string "nat option"              \<comment> \<open>fileId, totalChunks\<close>
  | RChunk string "nat option" string bool    \<comment> \<open>fileId, index, data (base64), retry\<close>
  | RAck string "nat list"                    \<comment> \<open>fileId, acks\<close>
  | RFileCancel string string                 \<comment> \<open>fileId, reason\<close>
  | RText string                              \<comment> \<open>content\<close>
  | ROther                                    \<comment> \<open>any other \<open>type\<close>\<close>

text \<open>The type of an ICE candidate.\<close>

datatype candidateType = Host | Srflx | Prflx | Relay

record fileRequest =
  frFileId :: string
  frName :: string
  frSize :: nat
  frMimeType :: string
  frTotalChunks :: nat
  frTransferMode :: string

text \<open>What the client hands to \<open>signaling.send\<close>; the first argument is \<open>to\<close>.\<close>

datatype signal =
    FileRequest string fileRequest
  | FileResponse string string bool           \<comment> \<open>to, fileId, accepted\<close>
  | FileCancel string string string           \<comment> \<open>to, fileId, reason\<close>
  | RelayData string relayFrame
  | KeyExchange string string                 \<comment> \<open>to, publicKey\<close>
  | IceCandidate string candidateType         \<comment> \<open>to, the candidate (its type)\<close>

text \<open>What the client hands to \<open>dc.send\<close>: a JSON text frame or a binary frame.\<close>

datatype dcFrame =
    DcFileStart string string nat string nat  \<comment> \<open>fileId, name, size, mimeType, totalChunks\<close>
  | DcFileEnd string                          \<comment> \<open>fileId\<close>
  | DcFileCancel string string                \<comment> \<open>fileId, reason\<close>
  | DcText string
  | DcBinary bytes

text \<open>Calls of the console that a claim reads: the completion log of a relay transfer.\<close>

datatype consoleLine =
    TransferIncomplete "nat option" nat       \<comment> \<open>expected, received\<close>
  | MissingChunks "nat list"
  | SizeMismatch nat nat                      \<comment> \<open>expected, got\<close>
  | ChunkError "nat"                          \<comment> \<open>\<open>Error processing chunk ...\<close>\<close>

datatype effect =
    Signal signal
  | DcSend string dcFrame                     \<comment> \<open>peer, frame\<close>
  | ConnectionStateChange string string "string option"  \<comment> \<open>peerId, status, message\<close>
  | FileReceived string string string bytes   \<comment> \<open>peerId, name, the blob's type and bytes\<close>
  | FileRequestShown string                   \<comment> \<open>\<open>onFileRequest\<close>, for the peer\<close>
  | TextReceived string string
  | TransferCancelledShown string string string \<comment> \<open>peerId, fileId, reason\<close>
  | PendingRejected string                    \<comment> \<open>the pending request of a fileId is rejected\<close>
  | Console consoleLine

subsection \<open>The state of \<open>WebRTCManager\<close>\<close>

datatype direction = Send | Receive

record pendingChunk =
  base64 :: string
  retries :: nat
  sentAt :: nat

text \<open>
  The sender's reliability state of a relay transfer. \<open>pendingChunks\<close> is a \<open>Map\<close>:
  its iteration order is the order of insertion, so it is an association list.
\<close>

record relaySend =
  ackedChunks :: "nat set"
  pendingChunks :: "(nat \<times> pendingChunk) list"
  lastAckTime :: nat

record active =
  atPeerId :: string
  atDirection :: direction
  cancelled :: bool
  relaySt :: "relaySend option"   \<comment> \<open>present in the entry that \<open>_sendFileDataViaRelay\<close> makes\<close>

text \<open>
  An incoming transfer. \<open>chunks\<close> is a JavaScript array written by index: a partial map
  and its \<open>length\<close>. \<open>receivedIndices\<close> and \<open>pendingAcks\<close> are absent until the code
  that creates them has run.
\<close>

record incoming =
  inFileId :: string
  inName :: string
  inSize :: nat
  inMimeType :: string
  inTotalChunks :: "nat option"
  chunks :: "nat \<rightharpoonup> bytes"
  chunksLength :: nat
  receivedIndices :: "nat set option"
  pendingAcks :: "nat list option"
  received :: nat
  startTime :: nat
  confirmed :: bool

datatype iceState = IceNew | IceChecking | IceConnected | IceCompleted | IceFailed | IceDisconnected | IceClosed

text \<open>A quality prediction; a member that the code leaves out reads as false.\<close>

record quality =
  hasHost :: bool
  hasSrflx :: bool
  hasPrflx :: bool
  hasRelay :: bool
  p2pPossible :: bool
  p2pLikely :: bool
  networkIssue :: bool

record racing =
  resolved :: bool
  winner :: "string option"

record manager =
  relayMode :: "string \<rightharpoonup> bool"
  incomingTransfers :: "string \<rightharpoonup> incoming"
  activeTransfers :: "string \<rightharpoonup> active"
  pendingFileRequests :: "string \<rightharpoonup> string"     \<comment> \<open>fileId to peerId\<close>
  candidateTypes :: "string \<rightharpoonup> candidateType set"
  connectionQuality :: "string \<rightharpoonup> quality"
  connectionRacing :: "string \<rightharpoonup> racing"
  iceConnectionState :: "string \<rightharpoonup> iceState"   \<comment> \<open>of \<open>connections.get(peerId)\<close>, when there is one\<close>
  p2pRetryTimers :: "string \<rightharpoonup> nat"            \<comment> \<open>the time at which the pending retry timer fires\<close>
  p2pRetryAttempts :: "string \<rightharpoonup> nat"
  crypto :: cryptoManager
  onConnectionStateChange :: bool                   \<comment> \<open>whether the observer callback is set\<close>
  onFileReceived :: bool
  onFileRequest :: bool
  onTextReceived :: bool
  onTransferCancelled :: bool
  effects :: "effect list"                          \<comment> \<open>what the manager did, oldest first\<close>

definition emit :: "effect \<Rightarrow> manager \<Rightarrow> manager" where
  "emit e m = m\<lparr>effects := effects m @ [e]\<rparr>"

definition notifyConnectionState :: "string \<Rightarrow> string \<Rightarrow> string option \<Rightarrow> manager \<Rightarrow> manager" where
  "notifyConnectionState peerId st message m =
     (if onConnectionStateChange m then emit (ConnectionStateChange peerId st message) m else m)"

subsection \<open>Phase 1: the file request\<close>

record jsfile =
  fileName :: string
  content :: bytes   \<comment> \<open>\<open>file.size\<close> is its length\<close>
  fileType :: string

definition mimeOf :: "string \<Rightarrow> string" where
  "mimeOf t = (if t = [] then ''application/octet-stream'' else t)"

text \<open>\<open>Math.ceil(file.size / CHUNK_SIZE)\<close>; the division by a power of two is exact.\<close>

definition totalChunks :: "nat \<Rightarrow> nat" where
  "totalChunks sz = nat \<lceil>real sz / real CHUNK_SIZE\<rceil>"


subsection \<open>Phase 3, direct path\<close>

text \<open>
  What the environment does during one turn of the chunk loop of
  \<open>_sendFileDataViaP2P\<close>: whether the transfer is found cancelled (or gone) at the top of
  the loop, the random bits of the two IVs, and one entry for each time the loop finds
  \<open>bufferedAmount\<close> above 1 MiB, saying whether the transfer is found cancelled then.
  The crypto manager and the channel stay as they are during the transfer.
\<close>

record p2pTurn =
  cancelledAtTop :: bool
  roomRnd :: "96 word"
  peerRnd :: "96 word"
  bufferPolls :: "bool list"

datatype outcome = Completed | Threw error | Suspended



definition emptyManager :: manager where
  "emptyManager =
     \<lparr>relayMode = Map.empty, incomingTransfers = Map.empty, activeTransfers = Map.empty,
      pendingFileRequests = Map.empty, candidateTypes = Map.empty, connectionQuality = Map.empty,
      connectionRacing = Map.empty, iceConnectionState = Map.empty, p2pRetryTimers = Map.empty,
      p2pRetryAttempts = Map.empty,
      crypto = \<lparr>sharedSecrets = Map.empty, roomKey = None, roomPasswordSet = False\<rparr>,
      onConnectionStateChange = True, onFileReceived = True, onFileRequest = True,
      onTextReceived = True, onTransferCancelled = True, effects = []\<rparr>"


definition demoFile :: jsfile where
  "demoFile = \<lparr>fileName = ''hello.bin'', content = [1, 2, 3], fileType = []\<rparr>"

section \<open>Worker entry point: room resolution (index.ts)\<close>

subsection \<open>The string operations the worker uses\<close>

text \<open>\<open>s.split(d)\<close> for a separator of one character.\<close>

fun splitChar :: "char \<Rightarrow> string \<Rightarrow> string list" where
  "splitChar d [] = [[]]"
| "splitChar d (c # cs) =
     (if c = d then [] # splitChar d cs
      else (case splitChar d cs of [] \<Rightarrow> [[c]] | p # ps \<Rightarrow> (c # p) # ps))"

text \<open>\<open>s.split('::')\<close> and \<open>s.includes('::')\<close>.\<close>

fun splitDC :: "string \<Rightarrow> string list" where
  "splitDC [] = [[]]"
| "splitDC [c] = [[c]]"
| "splitDC (c # d # cs) =
     (if c = CHR '':'' \<and> d = CHR '':'' then [] # splitDC cs
      else (case splitDC (d # cs) of [] \<Rightarrow> [[c]] | p # ps \<Rightarrow> (c # p) # ps))"

fun includesDC :: "string \<Rightarrow> bool" where
  "includesDC [] = False"
| "includesDC [c] = False"
| "includesDC (c # d # cs) = ((c = CHR '':'' \<and> d = CHR '':'') \<or> includesDC (d # cs))"

text \<open>\<open>parts.join(sep)\<close>\<close>

fun joinWith :: "string \<Rightarrow> string list \<Rightarrow> string" where
  "joinWith sep [] = []"
| "joinWith sep [p] = p"
| "joinWith sep (p # q # ps) = p @ sep @ joinWith sep (q # ps)"

text \<open>\<open>s.lastIndexOf(c)\<close>; \<open>None\<close> is \<open>-1\<close>.\<close>

definition lastIndexOf :: "char \<Rightarrow> string \<Rightarrow> nat option" where
  "lastIndexOf c s =
     (case filter (\<lambda>i. s ! i = c) [0..<length s] of [] \<Rightarrow> None | i # is \<Rightarrow> Some (last (i # is)))"

definition padStart4 :: "string \<Rightarrow> string" where
  "padStart4 g = replicate (4 - length g) CHR ''0'' @ g"

text \<open>\<open>toUpperCase\<close> and \<open>toLowerCase\<close> on the letters of ASCII.\<close>

definition upperChar :: "char \<Rightarrow> char" where
  "upperChar c = (let n = (of_char c :: nat) in if 97 \<le> n \<and> n \<le> 122 then char_of (n - 32) else c)"

definition lowerChar :: "char \<Rightarrow> char" where
  "lowerChar c = (let n = (of_char c :: nat) in if 65 \<le> n \<and> n \<le> 90 then char_of (n + 32) else c)"

definition toUpperCase :: "string \<Rightarrow> string" where
  "toUpperCase s = map upperChar s"

definition toLowerCase :: "string \<Rightarrow> string" where
  "toLowerCase s = map lowerChar s"

subsection \<open>From the client's address to the room code\<close>

definition expandIPv6 :: "string \<Rightarrow> error + string" where
  "expandIPv6 ip0 =
     (let ip = (if CHR ''.'' \<in> set ip0
                then (case lastIndexOf CHR '':'' ip0 of None \<Rightarrow> [] | Some lastColon \<Rightarrow> take lastColon ip0)
                else ip0)
      in if includesDC ip then
           (let parts = splitDC ip;
                p0 = (case parts of [] \<Rightarrow> [] | a # _ \<Rightarrow> a);
                p1 = (case parts of a # b # _ \<Rightarrow> b | _ \<Rightarrow> []);
                left = (if p0 \<noteq> [] then splitChar CHR '':'' p0 else []);
                right = (if p1 \<noteq> [] then splitChar CHR '':'' p1 else [])
            in if 8 < length left + length right then Inl RangeError
               else Inr (joinWith '':'' (map padStart4
                      (left @ replicate (8 - length left - length right) ''0000'' @ right))))
         else Inr (joinWith '':'' (map padStart4 (splitChar CHR '':'' ip))))"

text \<open>The network part that \<open>generateRoomId\<close> hashes.\<close>

definition networkPart :: "string \<Rightarrow> error + string" where
  "networkPart ip =
     (if ip = ''default'' \<or> ip = ''127.0.0.1'' \<or> ip = ''::1'' then Inr ''localhost''
      else if CHR ''.'' \<in> set ip \<and> CHR '':'' \<notin> set ip then
        (let parts = splitChar CHR ''.'' ip
         in if length parts = 4 then Inr (joinWith ''.'' (take 3 parts)) else Inr ip)
      else (case expandIPv6 ip of
              Inl e \<Rightarrow> Inl e
            | Inr expanded \<Rightarrow> Inr (joinWith '':'' (take 4 (splitChar CHR '':'' expanded)))))"

definition generateRoomId :: "platform \<Rightarrow> string \<Rightarrow> error + string" where
  "generateRoomId W ip =
     (case networkPart ip of
        Inl e \<Rightarrow> Inl e
      | Inr part \<Rightarrow> Inr (toHex (take 8 (sha256 W (utf8 part)))))"

text \<open>
  The room code that \<open>handleWebSocket\<close> resolves, from the \<open>room\<close> query parameter and
  the headers \<open>CF-Connecting-IP\<close> and \<open>X-Forwarded-For\<close> (\<open>None\<close> when absent).
\<close>

definition clientIP :: "string option \<Rightarrow> string option \<Rightarrow> string" where
  "clientIP cf xff =
     (case cf of
        Some ip \<Rightarrow> if ip \<noteq> [] then ip else
          (case xff of None \<Rightarrow> ''default''
           | Some x \<Rightarrow> (case splitChar CHR '','' x of [] \<Rightarrow> ''default''
                        | a # _ \<Rightarrow> if a \<noteq> [] then a else ''default''))
      | None \<Rightarrow>
          (case xff of None \<Rightarrow> ''default''
           | Some x \<Rightarrow> (case splitChar CHR '','' x of [] \<Rightarrow> ''default''
                        | a # _ \<Rightarrow> if a \<noteq> [] then a else ''default'')))"

definition validExplicitRoom :: "string option \<Rightarrow> bool" where
  "validExplicitRoom explicitRoom =
     (case explicitRoom of None \<Rightarrow> False | Some r \<Rightarrow> r \<noteq> [] \<and> CODE_PATTERN r)"

definition resolveRoomCode :: "platform \<Rightarrow> string option \<Rightarrow> string option \<Rightarrow> string option \<Rightarrow> error + string" where
  "resolveRoomCode W explicitRoom cf xff =
     (case explicitRoom of
        Some r \<Rightarrow>
          if r \<noteq> [] \<and> CODE_PATTERN r then Inr (toUpperCase r)
          else (case generateRoomId W (clientIP cf xff) of
                  Inl e \<Rightarrow> Inl e
                | Inr ipHash \<Rightarrow> Inr (toUpperCase (take 6 ipHash)))
      | None \<Rightarrow>
          (case generateRoomId W (clientIP cf xff) of
             Inl e \<Rightarrow> Inl e
           | Inr ipHash \<Rightarrow> Inr (toUpperCase (take 6 ipHash))))"

definition roomIdOf :: "string \<Rightarrow> string" where
  "roomIdOf roomCode = ''room-'' @ toLowerCase roomCode"

text \<open>A group of an address: not empty, and without a separator in it.\<close>

definition isGroup :: "string \<Rightarrow> bool" where
  "isGroup g = (g \<noteq> [] \<and> CHR '':'' \<notin> set g \<and> CHR ''.'' \<notin> set g)"

subsection \<open>Relay mode and the background retry\<close>

definition stopBackgroundP2PRetry :: "string \<Rightarrow> manager \<Rightarrow> manager" where
  "stopBackgroundP2PRetry peerId m =
     m\<lparr>p2pRetryTimers := (p2pRetryTimers m)(peerId := None),
       p2pRetryAttempts := (p2pRetryAttempts m)(peerId := None)\<rparr>"

text \<open>\<open>_startBackgroundP2PRetry\<close> at time \<open>now\<close>: the first attempt is due after the initial delay.\<close>

definition startBackgroundP2PRetry :: "nat \<Rightarrow> string \<Rightarrow> manager \<Rightarrow> manager" where
  "startBackgroundP2PRetry now peerId m =
     (let m1 = stopBackgroundP2PRetry peerId m
      in m1\<lparr>p2pRetryAttempts := (p2pRetryAttempts m1)(peerId \<mapsto> 0),
            p2pRetryTimers := (p2pRetryTimers m1)(peerId \<mapsto> now + P2P_RETRY_INITIAL_DELAY)\<rparr>)"

definition inRelayMode :: "manager \<Rightarrow> string \<Rightarrow> bool" where
  "inRelayMode m peerId = (relayMode m peerId = Some True)"

definition switchToRelay :: "nat \<Rightarrow> string \<Rightarrow> string option \<Rightarrow> bool \<Rightarrow> manager \<Rightarrow> manager" where
  "switchToRelay now peerId message silent m =
     (if inRelayMode m peerId then m
      else
        (let m1 = m\<lparr>relayMode := (relayMode m)(peerId \<mapsto> True)\<rparr>;
             m2 = notifyConnectionState peerId ''relay'' (if silent then None else message) m1;
             m3 = (case connectionRacing m2 peerId of
                     None \<Rightarrow> m2
                   | Some r \<Rightarrow>
                       if \<not> resolved r
                       then m2\<lparr>connectionRacing := (connectionRacing m2)(peerId \<mapsto>
                                 r\<lparr>resolved := True, winner := Some ''relay''\<rparr>)\<rparr>
                       else m2)
         in startBackgroundP2PRetry now peerId m3))"

subsection \<open>Receiving over the relay\<close>

definition handleFileCancel :: "string \<Rightarrow> string \<Rightarrow> string \<Rightarrow> manager \<Rightarrow> manager" where
  "handleFileCancel peerId fileId reason m =
     (let m1 = (case activeTransfers m fileId of
                  None \<Rightarrow> m
                | Some t \<Rightarrow> m\<lparr>activeTransfers := (activeTransfers m)(fileId \<mapsto> t\<lparr>cancelled := True\<rparr>)\<rparr>);
          m2 = (case incomingTransfers m1 peerId of
                  None \<Rightarrow> m1
                | Some it \<Rightarrow>
                    if inFileId it = fileId
                    then m1\<lparr>incomingTransfers := (incomingTransfers m1)(peerId := None)\<rparr>
                    else m1);
          m3 = (case pendingFileRequests m2 fileId of
                  None \<Rightarrow> m2
                | Some p \<Rightarrow> emit (PendingRejected fileId)
                              (m2\<lparr>pendingFileRequests := (pendingFileRequests m2)(fileId := None)\<rparr>))
      in if onTransferCancelled m3 then emit (TransferCancelledShown peerId fileId reason) m3 else m3)"

text \<open>
  \<open>handleRelayAck\<close> at time \<open>now\<close>. An entry made by another path has no \<open>ackedChunks\<close>:
  adding to it is a TypeError.
\<close>

definition handleRelayAck :: "nat \<Rightarrow> string \<Rightarrow> nat list \<Rightarrow> manager \<Rightarrow> manager \<times> error option" where
  "handleRelayAck now fileId acks m =
     (case activeTransfers m fileId of
        None \<Rightarrow> (m, None)
      | Some t \<Rightarrow>
          if atDirection t \<noteq> Send then (m, None)
          else (case relaySt t of
                  None \<Rightarrow> if acks = [] then (m, None) else (m, Some TypeError)
                | Some rs \<Rightarrow>
                    (m\<lparr>activeTransfers := (activeTransfers m)(fileId \<mapsto>
                         t\<lparr>relaySt := Some (rs\<lparr>ackedChunks := ackedChunks rs \<union> set acks,
                                                pendingChunks := filter (\<lambda>p. fst p \<notin> set acks) (pendingChunks rs),
                                                lastAckTime := now\<rparr>)\<rparr>)\<rparr>, None)))"

definition sendChunkAck :: "string \<Rightarrow> string \<Rightarrow> nat list \<Rightarrow> manager \<Rightarrow> manager" where
  "sendChunkAck peerId fileId acks m = emit (Signal (RelayData peerId (RAck fileId acks))) m"

definition setIncoming :: "string \<Rightarrow> incoming \<Rightarrow> manager \<Rightarrow> manager" where
  "setIncoming peerId t m = m\<lparr>incomingTransfers := (incomingTransfers m)(peerId \<mapsto> t)\<rparr>"

definition receivedSet :: "incoming \<Rightarrow> nat set" where
  "receivedSet t = (case receivedIndices t of None \<Rightarrow> {} | Some R \<Rightarrow> R)"

text \<open>
  The \<open>chunk\<close> branch of \<open>handleRelayData\<close>. Progress notifications are left out. The
  handler is taken as one step: no other frame is handled while it waits for
  \<open>decryptChunk\<close>.
\<close>

definition handleChunk :: "platform \<Rightarrow> string \<Rightarrow> string \<Rightarrow> nat option \<Rightarrow> string \<Rightarrow> manager \<Rightarrow> manager" where
  "handleChunk W peerId fileId idx dat m =
     (case incomingTransfers m peerId of
        None \<Rightarrow> m
      | Some t \<Rightarrow>
          if inFileId t \<noteq> fileId then m
          else
            (let chunkIndex = (case idx of Some i \<Rightarrow> i | None \<Rightarrow> chunksLength t)
             in if chunkIndex \<in> receivedSet t then sendChunkAck peerId fileId [chunkIndex] m
                else
                  (case atob W dat of
                     None \<Rightarrow> emit (Console (ChunkError chunkIndex)) m
                   | Some bs \<Rightarrow>
                       (case decryptChunk W (crypto m) peerId bs of
                          Inl e \<Rightarrow> emit (Console (ChunkError chunkIndex)) m
                        | Inr decrypted \<Rightarrow>
                            (let acks = (case pendingAcks t of None \<Rightarrow> [] | Some a \<Rightarrow> a) @ [chunkIndex];
                                 t1 = t\<lparr>chunks := (chunks t)(chunkIndex \<mapsto> decrypted),
                                        chunksLength := max (chunksLength t) (chunkIndex + 1),
                                        received := received t + length decrypted,
                                        receivedIndices := Some (insert chunkIndex (receivedSet t))\<rparr>
                             in if ACK_BATCH_SIZE \<le> length acks
                                then sendChunkAck peerId fileId acks
                                       (setIncoming peerId (t1\<lparr>pendingAcks := Some []\<rparr>) m)
                                else setIncoming peerId (t1\<lparr>pendingAcks := Some acks\<rparr>) m)))))"

definition handleFileStart ::
    "nat \<Rightarrow> string \<Rightarrow> string \<Rightarrow> string \<Rightarrow> nat \<Rightarrow> string \<Rightarrow> nat option \<Rightarrow> manager \<Rightarrow> manager" where
  "handleFileStart now peerId fileId nm sz mime tc m =
     (let entry = \<lparr>atPeerId = peerId, atDirection = Receive, cancelled = False, relaySt = None\<rparr>;
          fresh = \<lparr>inFileId = fileId, inName = nm, inSize = sz, inMimeType = mimeOf mime,
                   inTotalChunks = tc, chunks = Map.empty, chunksLength = 0,
                   receivedIndices = Some {}, pendingAcks = None, received = 0,
                   startTime = now, confirmed = True\<rparr>;
          m1 = (case incomingTransfers m peerId of
                  None \<Rightarrow> setIncoming peerId fresh m
                | Some ex \<Rightarrow>
                    if confirmed ex \<and> inFileId ex = fileId
                    then setIncoming peerId
                           (ex\<lparr>startTime := now, chunks := Map.empty, chunksLength := 0, received := 0,
                               inTotalChunks := tc, receivedIndices := Some {}\<rparr>) m
                    else setIncoming peerId fresh
                           (if inFileId ex \<noteq> []
                            then m\<lparr>activeTransfers := (activeTransfers m)(inFileId ex := None)\<rparr>
                            else m));
          m2 = m1\<lparr>activeTransfers := (activeTransfers m1)(fileId \<mapsto> entry)\<rparr>
      in if onFileRequest m2 then emit (FileRequestShown peerId) m2 else m2)"

text \<open>
  The chunks that arrive while the \<open>file-end\<close> branch waits: for each check of its
  100 ms interval timer, the milliseconds elapsed since the wait began and the chunk
  frames (fileId, index, data) handled since the check before. When the list ends no
  further chunk arrives, and the wait ends by its time limit.
\<close>

type_synonym lateChunks = "(nat \<times> (string \<times> nat option \<times> string) list) list"

definition receivedCount :: "manager \<Rightarrow> string \<Rightarrow> nat" where
  "receivedCount m peerId =
     (case incomingTransfers m peerId of None \<Rightarrow> 0 | Some t \<Rightarrow> card (receivedSet t))"

fun handleChunks :: "platform \<Rightarrow> string \<Rightarrow> (string \<times> nat option \<times> string) list \<Rightarrow> manager \<Rightarrow> manager" where
  "handleChunks W peerId [] m = m"
| "handleChunks W peerId ((fileId, idx, dat) # fs) m =
     handleChunks W peerId fs (handleChunk W peerId fileId idx dat m)"

fun waitForChunks :: "platform \<Rightarrow> string \<Rightarrow> nat \<Rightarrow> lateChunks \<Rightarrow> manager \<Rightarrow> manager" where
  "waitForChunks W peerId expectedCount [] m = m"
| "waitForChunks W peerId expectedCount ((elapsed, fs) # ticks) m =
     (let m1 = handleChunks W peerId fs m
      in if expectedCount \<le> receivedCount m1 peerId \<or> 3000 < elapsed then m1
         else waitForChunks W peerId expectedCount ticks m1)"

text \<open>\<open>data.totalChunks || transfer.totalChunks\<close>\<close>

definition expectedCountOf :: "nat option \<Rightarrow> incoming \<Rightarrow> nat option" where
  "expectedCountOf tc t =
     (case tc of
        None \<Rightarrow> inTotalChunks t
      | Some n \<Rightarrow> if n \<noteq> 0 then Some n else inTotalChunks t)"

text \<open>
  The loop that builds \<open>orderedChunks\<close>, each chunk with the index it was read at. A
  bound that is \<open>undefined\<close> ends the loop at once.
\<close>

definition orderedChunks :: "incoming \<Rightarrow> nat option \<Rightarrow> (nat \<times> bytes) list" where
  "orderedChunks t expectedCount =
     (case expectedCount of
        None \<Rightarrow> []
      | Some e \<Rightarrow> List.map_filter (\<lambda>i. map_option (Pair i) (chunks t i)) [0..<e])"

definition missingChunks :: "incoming \<Rightarrow> nat option \<Rightarrow> nat list" where
  "missingChunks t expectedCount =
     (case expectedCount of
        None \<Rightarrow> []
      | Some e \<Rightarrow> filter (\<lambda>i. receivedIndices t = None \<or> i \<notin> receivedSet t) [0..<e])"

text \<open>The \<open>file-end\<close> branch after its wait: the integrity report, the blob, the delivery.\<close>

definition finishFileEnd :: "string \<Rightarrow> nat option \<Rightarrow> manager \<Rightarrow> manager" where
  "finishFileEnd peerId expectedCount m =
     (case incomingTransfers m peerId of
        None \<Rightarrow> m
      | Some t \<Rightarrow>
          (let n = card (receivedSet t);
               m1 = (if Some n \<noteq> expectedCount
                     then emit (Console (MissingChunks (missingChunks t expectedCount)))
                            (emit (Console (TransferIncomplete expectedCount n)) m)
                     else m);
               blob = concat (map snd (orderedChunks t expectedCount));
               m2 = (if length blob \<noteq> inSize t then emit (Console (SizeMismatch (inSize t) (length blob))) m1
                     else m1);
               m3 = (if onFileReceived m2
                     then emit (FileReceived peerId (inName t) (mimeOf (inMimeType t)) blob) m2
                     else m2)
           in m3\<lparr>incomingTransfers := (incomingTransfers m3)(peerId := None),
                 activeTransfers := (activeTransfers m3)(inFileId t := None)\<rparr>))"

definition handleFileEnd :: "platform \<Rightarrow> string \<Rightarrow> nat option \<Rightarrow> lateChunks \<Rightarrow> manager \<Rightarrow> manager" where
  "handleFileEnd W peerId tc ticks m =
     (case incomingTransfers m peerId of
        None \<Rightarrow> m
      | Some t \<Rightarrow>
          (let m1 = (case pendingAcks t of
                       None \<Rightarrow> m
                     | Some acks \<Rightarrow>
                         if acks \<noteq> []
                         then sendChunkAck peerId (inFileId t) acks
                                (setIncoming peerId (t\<lparr>pendingAcks := Some []\<rparr>) m)
                         else m);
               expectedCount = expectedCountOf tc t;
               m2 = (case expectedCount of
                       None \<Rightarrow> m1
                     | Some e \<Rightarrow>
                         if card (receivedSet t) < e then waitForChunks W peerId e ticks m1 else m1)
           in finishFileEnd peerId expectedCount m2))"

text \<open>
  \<open>handleRelayData\<close> at time \<open>now\<close>. The second component of the result is the error
  the handler's promise is rejected with, if any; the state is as the handler left it.
\<close>

definition enterRelayMode :: "string \<Rightarrow> manager \<Rightarrow> manager" where
  "enterRelayMode peerId m =
     (if \<not> inRelayMode m peerId
      then notifyConnectionState peerId ''relay'' None (m\<lparr>relayMode := (relayMode m)(peerId \<mapsto> True)\<rparr>)
      else m)"

definition handleRelayData ::
    "platform \<Rightarrow> nat \<Rightarrow> lateChunks \<Rightarrow> manager \<Rightarrow> string \<Rightarrow> relayFrame \<Rightarrow> manager \<times> error option" where
  "handleRelayData W now ticks m peerId dat =
     (let m0 = enterRelayMode peerId m
      in case dat of
           RFileStart fileId nm sz mime tc \<Rightarrow> (handleFileStart now peerId fileId nm sz mime tc m0, None)
         | RFileCancel fileId reason \<Rightarrow> (handleFileCancel peerId fileId reason m0, None)
         | RFileEnd fileId tc \<Rightarrow> (handleFileEnd W peerId tc ticks m0, None)
         | RChunk fileId idx payload retry \<Rightarrow> (handleChunk W peerId fileId idx payload m0, None)
         | RAck fileId acks \<Rightarrow> handleRelayAck now fileId acks m0
         | RText txt \<Rightarrow> (if onTextReceived m0 then emit (TextReceived peerId txt) m0 else m0, None)
         | ROther \<Rightarrow> (m0, None))"


text \<open>
  Predicates used to state theorems. \<open>grows m m'\<close>: from \<open>m\<close> to \<open>m'\<close> the relay
  modes, the background-retry timers and the file observer are the same and the effects
  have only been added to. \<open>indexedBelow n frames\<close>: every chunk frame carries an index,
  below \<open>n\<close>. \<open>relayOk n m peerId fileId\<close>: the transfer from the peer is of that file
  and of \<open>n\<close> chunks, the indices marked as received are those of the stored chunks,
  and they are below \<open>n\<close>.
\<close>

definition grows :: "manager \<Rightarrow> manager \<Rightarrow> bool" where
  "grows m m' =
     (relayMode m' = relayMode m \<and> p2pRetryTimers m' = p2pRetryTimers m
      \<and> p2pRetryAttempts m' = p2pRetryAttempts m \<and> onFileReceived m' = onFileReceived m
      \<and> (\<exists>es. effects m' = effects m @ es))"







subsection \<open>Candidate tracking and the quality prediction\<close>








subsection \<open>Racing the direct connection against the fallback timers\<close>
























subsection \<open>Sending over the relay\<close>

text \<open>
  \<open>_exchangeKeysViaSignaling\<close>: the sender's public key goes out, then the function
  waits for the peer's key. What the environment gives is the exported key and, when the
  peer's key arrives within the five seconds, the crypto manager that holds it and the
  time; \<open>None\<close> is the rejection of \<open>waitForEncryptionKey\<close>.
\<close>

record keyExchange =
  publicKey :: string
  keyArrives :: "(cryptoManager \<times> nat) option"

definition exchangeKeysViaSignaling :: "keyExchange \<Rightarrow> string \<Rightarrow> manager \<Rightarrow> manager \<times> (error + nat)" where
  "exchangeKeysViaSignaling kx peerId m =
     (let m1 = emit (Signal (KeyExchange peerId (publicKey kx))) m
      in case keyArrives kx of
           None \<Rightarrow> (m1, Inl EncryptionKeyTimeout)
         | Some (cm, t) \<Rightarrow> (m1\<lparr>crypto := cm\<rparr>, Inr t))"

text \<open>
  What reaches the sender while it is suspended at a timer: ACK frames, each with the
  time at which \<open>handleRelayAck\<close> runs, and \<open>file-cancel\<close> frames. \<open>wake\<close> is what
  \<open>Date.now()\<close> reads when the sender runs again.
\<close>

datatype arrival = AckArrives nat "nat list" | CancelArrives string

record relayTick =
  arrivals :: "arrival list"
  wake :: nat

fun arrive :: "string \<Rightarrow> string \<Rightarrow> manager \<Rightarrow> arrival \<Rightarrow> manager" where
  "arrive peerId fileId m (AckArrives t acks) = fst (handleRelayAck t fileId acks m)"
| "arrive peerId fileId m (CancelArrives reason) = handleFileCancel peerId fileId reason m"

definition suspended :: "string \<Rightarrow> string \<Rightarrow> relayTick \<Rightarrow> manager \<Rightarrow> manager" where
  "suspended peerId fileId tk m = foldl (arrive peerId fileId) m (arrivals tk)"

text \<open>\<open>_sendChunk\<close>; the frame's \<open>retry\<close> member is \<open>retryCount > 0\<close>.\<close>

definition sendChunk :: "string \<Rightarrow> string \<Rightarrow> nat option \<Rightarrow> string \<Rightarrow> int \<Rightarrow> manager \<Rightarrow> manager" where
  "sendChunk peerId fileId index base64Data retryCount m =
     emit (Signal (RelayData peerId (RChunk fileId index base64Data (0 < retryCount)))) m"

text \<open>
  \<open>_getOldestPendingChunk\<close> returns \<open>null\<close> or the object \<open>{ index, ...info }\<close>, whose
  members are \<open>index\<close> and the three members of the pending entry. \<open>oldestTime\<close> starts
  at \<open>Infinity\<close>, which is \<open>None\<close> here.
\<close>

definition spread :: "nat \<Rightarrow> pendingChunk \<Rightarrow> json" where
  "spread index info =
     JObj [(''index'', JNum (int index)), (''base64'', JStr (base64 info)),
           (''retries'', JNum (int (retries info))), (''sentAt'', JNum (int (sentAt info)))]"

fun oldestFrom :: "json \<Rightarrow> nat option \<Rightarrow> (nat \<times> pendingChunk) list \<Rightarrow> json" where
  "oldestFrom oldest oldestTime [] = oldest"
| "oldestFrom oldest oldestTime ((index, info) # rest) =
     (if (case oldestTime of None \<Rightarrow> True | Some t \<Rightarrow> sentAt info < t)
      then oldestFrom (spread index info) (Some (sentAt info)) rest
      else oldestFrom oldest oldestTime rest)"

definition getOldestPendingChunk :: "relaySend \<Rightarrow> json" where
  "getOldestPendingChunk transfer = oldestFrom JNull None (pendingChunks transfer)"

text \<open>Numbers, indices and strings as the members of a destructured object give them.\<close>

fun numOf :: "json \<Rightarrow> int" where
  "numOf (JNum n) = n"
| "numOf _ = 0"

fun indexOf :: "json \<Rightarrow> nat option" where
  "indexOf (JNum n) = Some (nat n)"
| "indexOf _ = None"

fun textOf :: "json \<Rightarrow> string" where
  "textOf (JStr s) = s"
| "textOf _ = []"

text \<open>\<open>retries >= RELAY.MAX_CHUNK_RETRIES\<close>; it is false when \<open>retries\<close> is \<open>undefined\<close>.\<close>

fun numAtLeast :: "json \<Rightarrow> nat \<Rightarrow> bool" where
  "numAtLeast (JNum n) k = (int k \<le> n)"
| "numAtLeast _ k = False"

text \<open>
  The two assignments \<open>transfer.pendingChunks.get(index).retries = retries + 1\<close> and
  \<open>.sentAt = Date.now()\<close>.
\<close>

definition markRetried :: "string \<Rightarrow> json \<Rightarrow> json \<Rightarrow> nat \<Rightarrow> manager \<Rightarrow> manager" where
  "markRetried fileId index retriesBefore now m =
     (case activeTransfers m fileId of
        None \<Rightarrow> m
      | Some transfer \<Rightarrow>
          (case relaySt transfer of
             None \<Rightarrow> m
           | Some rs \<Rightarrow>
               m\<lparr>activeTransfers := (activeTransfers m)(fileId \<mapsto>
                    transfer\<lparr>relaySt := Some (rs\<lparr>pendingChunks :=
                       map (\<lambda>p. if Some (fst p) = indexOf index
                                  then (fst p, (snd p)\<lparr>retries := nat (numOf retriesBefore + 1), sentAt := now\<rparr>)
                                  else p)
                           (pendingChunks rs)\<rparr>)\<rparr>)\<rparr>))"

text \<open>
  The body of \<open>if (Date.now() - transfer.lastAckTime > RELAY.ACK_TIMEOUT)\<close> in the
  flow-control wait. The source destructures \<open>{ index, data, retries }\<close> from the oldest
  pending object and then reads \<open>data.base64\<close>.
\<close>

definition retransmitOldest :: "string \<Rightarrow> string \<Rightarrow> nat \<Rightarrow> relaySend \<Rightarrow> manager \<Rightarrow> error + manager" where
  "retransmitOldest peerId fileId now transfer m =
     (let oldestPending = getOldestPendingChunk transfer in
      if truthy oldestPending then
        (case (getProp oldestPending ''index'', getProp oldestPending ''data'',
               getProp oldestPending ''retries'') of
           (Some index, Some dat, Some retriesBefore) \<Rightarrow>
             if numAtLeast retriesBefore MAX_CHUNK_RETRIES then Inl RetransmitExhausted
             else (case getProp dat ''base64'' of
                     None \<Rightarrow> Inl TypeError
                   | Some b \<Rightarrow>
                       Inr (markRetried fileId index retriesBefore now
                              (sendChunk peerId fileId (indexOf index) (textOf b)
                                 (numOf retriesBefore + 1) m)))
         | _ \<Rightarrow> Inl TypeError)
      else Inr m)"

text \<open>\<open>transfer.pendingChunks.set(chunkIndex, ...)\<close>: a key that is new goes to the end.\<close>

definition setPending :: "nat \<Rightarrow> pendingChunk \<Rightarrow> (nat \<times> pendingChunk) list \<Rightarrow> (nat \<times> pendingChunk) list" where
  "setPending k v ps =
     (if k \<in> fst ` set ps then map (\<lambda>p. if fst p = k then (k, v) else p) ps else ps @ [(k, v)])"

definition trackPending :: "string \<Rightarrow> nat \<Rightarrow> pendingChunk \<Rightarrow> manager \<Rightarrow> manager" where
  "trackPending fileId chunkIndex info m =
     (case activeTransfers m fileId of
        None \<Rightarrow> m
      | Some transfer \<Rightarrow>
          (case relaySt transfer of
             None \<Rightarrow> m
           | Some rs \<Rightarrow>
               m\<lparr>activeTransfers := (activeTransfers m)(fileId \<mapsto>
                    transfer\<lparr>relaySt := Some (rs\<lparr>pendingChunks :=
                       setPending chunkIndex info (pendingChunks rs)\<rparr>)\<rparr>)\<rparr>))"

text \<open>
  After the chunk loop: the wait for the outstanding ACKs, which gives up after
  \<open>ACK_TIMEOUT * 2\<close>, the half second of extra delay, and \<open>file-end\<close>.
\<close>

definition sendFileEnd :: "string \<Rightarrow> string \<Rightarrow> nat \<Rightarrow> relayTick list \<Rightarrow> manager \<Rightarrow> manager \<times> outcome" where
  "sendFileEnd peerId fileId tc ticks m =
     (case ticks of
        [] \<Rightarrow> (m, Suspended)
      | tk # rest \<Rightarrow>
          (emit (Signal (RelayData peerId (RFileEnd fileId (Some tc)))) (suspended peerId fileId tk m),
           Completed))"

fun ackWait :: "string \<Rightarrow> string \<Rightarrow> nat \<Rightarrow> nat \<Rightarrow> nat \<Rightarrow> relayTick list \<Rightarrow> manager \<Rightarrow> manager \<times> outcome" where
  "ackWait peerId fileId tc ackWaitStart now ticks m =
     (case activeTransfers m fileId of
        None \<Rightarrow> (m, Threw TypeError)
      | Some transferState \<Rightarrow>
          (case relaySt transferState of
             None \<Rightarrow> (m, Threw TypeError)
           | Some rs \<Rightarrow>
               if card (ackedChunks rs) < tc then
                 (if ACK_TIMEOUT * 2 < now - ackWaitStart then sendFileEnd peerId fileId tc ticks m
                  else if cancelled transferState then (m, Threw TransferCancelled)
                  else (case ticks of
                          [] \<Rightarrow> (m, Suspended)
                        | tk # rest \<Rightarrow>
                            ackWait peerId fileId tc ackWaitStart (wake tk) rest
                              (suspended peerId fileId tk m)))
               else sendFileEnd peerId fileId tc ticks m))"

declare ackWait.simps [simp del]

text \<open>
  The chunk loop \<open>while (offset < file.size)\<close> and, inside it, the flow-control wait
  \<open>while (transfer.pendingChunks.size >= RELAY.WINDOW_SIZE)\<close>. Every \<open>await\<close> of a timer
  takes one tick; with no tick left the transfer is \<open>Suspended\<close>. \<open>ivs\<close> gives the
  random bits of the two IVs of each chunk. The progress callback is left out.
\<close>

fun relayLoop ::
    "platform \<Rightarrow> (nat \<Rightarrow> 96 word \<times> 96 word) \<Rightarrow> string \<Rightarrow> jsfile \<Rightarrow> string \<Rightarrow> nat \<Rightarrow> nat \<Rightarrow> nat
       \<Rightarrow> relayTick list \<Rightarrow> manager \<Rightarrow> manager \<times> outcome"
  and flowControl ::
    "platform \<Rightarrow> (nat \<Rightarrow> 96 word \<times> 96 word) \<Rightarrow> string \<Rightarrow> jsfile \<Rightarrow> string \<Rightarrow> nat \<Rightarrow> nat \<Rightarrow> nat
       \<Rightarrow> relayTick list \<Rightarrow> manager \<Rightarrow> manager \<times> outcome"
where
  "relayLoop W ivs peerId f fileId offset chunkIndex now ticks m =
     (if offset < length (content f) then
        (case activeTransfers m fileId of
           None \<Rightarrow> (m, Threw TransferCancelled)
         | Some transfer \<Rightarrow>
             if cancelled transfer then (m, Threw TransferCancelled)
             else flowControl W ivs peerId f fileId offset chunkIndex now ticks m)
      else ackWait peerId fileId (totalChunks (length (content f))) now now ticks m)"
| "flowControl W ivs peerId f fileId offset chunkIndex now ticks m =
     (case activeTransfers m fileId of
        None \<Rightarrow> (m, Threw TypeError)
      | Some transfer \<Rightarrow>
          (case relaySt transfer of
             None \<Rightarrow> (m, Threw TypeError)
           | Some rs \<Rightarrow>
               if WINDOW_SIZE \<le> length (pendingChunks rs) then
                 (case (if ACK_TIMEOUT < now - lastAckTime rs
                        then retransmitOldest peerId fileId now rs m else Inr m) of
                    Inl e \<Rightarrow> (m, Threw e)
                  | Inr m1 \<Rightarrow>
                      if cancelled transfer then (m1, Threw TransferCancelled)
                      else (case ticks of
                              [] \<Rightarrow> (m1, Suspended)
                            | tk # rest \<Rightarrow>
                                flowControl W ivs peerId f fileId offset chunkIndex (wake tk) rest
                                  (suspended peerId fileId tk m1)))
               else if TRANSFER_TIMEOUT < now - lastAckTime rs \<and> 0 < chunkIndex
                 then (m, Threw TransferTimeout)
               else (case encryptChunk W (crypto m) peerId (fst (ivs chunkIndex)) (snd (ivs chunkIndex))
                            (slice (content f) offset (offset + CHUNK_SIZE)) of
                       Inl e \<Rightarrow> (m, Threw e)
                     | Inr encrypted \<Rightarrow>
                         (let base64Data = btoa W encrypted;
                              m1 = trackPending fileId chunkIndex
                                     \<lparr>base64 = base64Data, retries = 0, sentAt = now\<rparr> m;
                              m2 = sendChunk peerId fileId (Some chunkIndex) base64Data 0 m1
                          in case ticks of
                               [] \<Rightarrow> (m2, Suspended)
                             | tk # rest \<Rightarrow>
                                 relayLoop W ivs peerId f fileId (offset + CHUNK_SIZE) (chunkIndex + 1)
                                   (wake tk) rest (suspended peerId fileId tk m2)))))"

declare relayLoop.simps [simp del] flowControl.simps [simp del]

text \<open>
  \<open>_sendFileDataViaRelay\<close>, entered at time \<open>now\<close>. The chunk loop runs inside
  \<open>try ... finally\<close>: however it ends, the entry of the transfer is deleted; the key
  exchange and \<open>file-start\<close> come before the \<open>try\<close>.
\<close>

definition sendFileDataViaRelay ::
    "platform \<Rightarrow> (nat \<Rightarrow> 96 word \<times> 96 word) \<Rightarrow> keyExchange \<Rightarrow> nat \<Rightarrow> manager \<Rightarrow> string \<Rightarrow> jsfile \<Rightarrow> string
       \<Rightarrow> relayTick list \<Rightarrow> manager \<times> outcome" where
  "sendFileDataViaRelay W ivs kx now m peerId f fileId ticks =
     (let m1 = m\<lparr>activeTransfers := (activeTransfers m)(fileId \<mapsto>
                   \<lparr>atPeerId = peerId, atDirection = Send, cancelled = False,
                    relaySt = Some \<lparr>ackedChunks = {}, pendingChunks = [], lastAckTime = now\<rparr>\<rparr>)\<rparr>;
          (m2, keys) = (if hasSharedSecret (crypto m1) peerId then (m1, Inr now)
                        else exchangeKeysViaSignaling kx peerId m1)
      in case keys of
           Inl e \<Rightarrow> (m2, Threw e)
         | Inr t \<Rightarrow>
             (let m3 = emit (Signal (RelayData peerId
                          (RFileStart fileId (fileName f) (length (content f)) (mimeOf (fileType f))
                             (Some (totalChunks (length (content f))))))) m2;
                  (m4, out) = relayLoop W ivs peerId f fileId 0 0 t ticks m3
              in (if out = Suspended then m4
                  else m4\<lparr>activeTransfers := (activeTransfers m4)(fileId := None)\<rparr>, out)))"

text \<open>A frame that retransmits a chunk: a \<open>chunk\<close> frame whose \<open>retry\<close> member is true.\<close>

fun isRetransmission :: "effect \<Rightarrow> bool" where
  "isRetransmission (Signal (RelayData p (RChunk fileId index dat retry))) = retry"
| "isRetransmission _ = False"

text \<open>What a function added to the log holds no retransmission.\<close>

definition noRetransmission :: "manager \<Rightarrow> manager \<Rightarrow> bool" where
  "noRetransmission m m' =
     (\<exists>sent. effects m' = effects m @ sent \<and> \<not> list_ex isRetransmission sent)"

text \<open>
  A sender in the middle of a transfer to \<open>bob\<close>: ten chunks are sent and pending, the
  window is full, and no ACK has come since the transfer began at time 0.
\<close>

definition demoPending :: "(nat \<times> pendingChunk) list" where
  "demoPending = map (\<lambda>i. (i, \<lparr>base64 = ''QUJD'', retries = 0, sentAt = 5 * i\<rparr>)) [0..<10]"

definition demoStalled :: manager where
  "demoStalled = emptyManager\<lparr>activeTransfers := [''f1'' \<mapsto>
       \<lparr>atPeerId = ''bob'', atDirection = Send, cancelled = False,
        relaySt = Some \<lparr>ackedChunks = {}, pendingChunks = demoPending, lastAckTime = 0\<rparr>\<rparr>],
     crypto := demoSender\<rparr>"

text \<open>
  A schedule on which no ACK ever arrives: the sender wakes 5 ms after it sent a chunk,
  then after more than \<open>ACK_TIMEOUT\<close>, then after more than \<open>ACK_TIMEOUT * 2\<close>, and
  once more half a second later.
\<close>

definition demoSilent :: "relayTick list" where
  "demoSilent = [\<lparr>arrivals = [], wake = 5\<rparr>, \<lparr>arrivals = [], wake = 5006\<rparr>,
                 \<lparr>arrivals = [], wake = 10006\<rparr>, \<lparr>arrivals = [], wake = 10506\<rparr>]"

section \<open>Theorems\<close>

subsection \<open>The password gate\<close>

lemma handleSetPassword_set:
  assumes "passwordHash r = Some h"
  shows "snd (handleSetPassword r req) = r"
    and "reqMethod req = ''POST'' \<Longrightarrow>
           fst (handleSetPassword r req) = failure ''Password already set for this room''"
  using assms by (simp_all add: handleSetPassword_def)

lemma roomStep_keeps:
  assumes "passwordHash r = Some h" "storage r ''passwordHash'' = Some h" "h \<noteq> []"
  shows "snd (roomStep r e) = r"
proof (cases e)
  case (SetPassword req)
  then show ?thesis using assms(1) by (simp add: handleSetPassword_set(1))
next
  case Evict
  then show ?thesis using assms by (simp add: Room_constructor_def)
qed

lemma roomRun_keeps:
  assumes "passwordHash r = Some h" "storage r ''passwordHash'' = Some h" "h \<noteq> []"
  shows "snd (roomRun r es) = r"
  using assms by (induction es) (simp_all add: roomStep_keeps)

lemma roomRun_refuses:
  assumes "passwordHash r = Some h" "storage r ''passwordHash'' = Some h" "h \<noteq> []"
  shows "list_all (\<lambda>rp. successOf rp = JBool False) (postReplies es (fst (roomRun r es)))"
proof (induction es)
  case Nil
  then show ?case by simp
next
  case (Cons e es)
  have keep: "snd (roomStep r e) = r" using assms by (rule roomStep_keeps)
  show ?case
  proof (cases e)
    case (SetPassword req)
    then show ?thesis
      using Cons keep assms(1) by (simp add: handleSetPassword_set failure_def)
  next
    case Evict
    then show ?thesis using Cons keep by simp
  qed
qed

lemma handleSetPassword_first:
  assumes "passwordHash r = None" "reqMethod req = ''POST''" "reqBody req = Some b"
    and "getProp b ''passwordHash'' = Some (JStr h)" "h \<noteq> []"
  shows "handleSetPassword r req =
           (\<lparr>status = 200, body = JsonBody [(''success'', JBool True)]\<rparr>,
            r\<lparr>passwordHash := Some h, storage := (storage r)(''passwordHash'' \<mapsto> h)\<rparr>)"
  using assms by (simp add: handleSetPassword_def)

text \<open>
  C5. A first POST to a room without a hash, whose body carries a non-empty string
  \<open>passwordHash\<close>, is answered \<open>{success: true}\<close> and stores the hash, in memory and in
  durable storage. From then on, whatever set-password requests arrive and however often
  the object is evicted and rebuilt, the room's state (so the stored hash) never changes,
  and every POST among those requests is answered \<open>{success: false}\<close>.
\<close>

theorem set_password_once:
  assumes "passwordHash r = None" "reqMethod req = ''POST''" "reqBody req = Some b"
    and "getProp b ''passwordHash'' = Some (JStr h)" "h \<noteq> []"
    and "r' = snd (handleSetPassword r req)"
  shows "successOf (Some (fst (handleSetPassword r req))) = JBool True
       \<and> passwordHash r' = Some h
       \<and> storage r' ''passwordHash'' = Some h
       \<and> snd (roomRun r' es) = r'
       \<and> list_all (\<lambda>rp. successOf rp = JBool False) (postReplies es (fst (roomRun r' es)))"
proof -
  have first: "handleSetPassword r req =
      (\<lparr>status = 200, body = JsonBody [(''success'', JBool True)]\<rparr>,
       r\<lparr>passwordHash := Some h, storage := (storage r)(''passwordHash'' \<mapsto> h)\<rparr>)"
    using assms(1-5) by (rule handleSetPassword_first)
  have ok: "successOf (Some (fst (handleSetPassword r req))) = JBool True"
    by (simp add: first)
  have p: "passwordHash r' = Some h" by (simp add: assms(6) first)
  have s: "storage r' ''passwordHash'' = Some h" by (simp add: assms(6) first)
  have keep: "snd (roomRun r' es) = r'" using p s assms(5) by (rule roomRun_keeps)
  have refuse: "list_all (\<lambda>rp. successOf rp = JBool False) (postReplies es (fst (roomRun r' es)))"
    using p s assms(5) by (rule roomRun_refuses)
  from ok p s keep refuse show ?thesis by blast
qed

theorem set_password_once_witness:
  "passwordHash (snd (handleSetPassword demoRoom (demoSet ''ab12''))) = Some ''ab12''
   \<and> snd (roomRun (snd (handleSetPassword demoRoom (demoSet ''ab12'')))
        [SetPassword (demoSet ''ffff''), Evict, SetPassword \<lparr>reqMethod = ''GET'', reqBody = None\<rparr>])
     = snd (handleSetPassword demoRoom (demoSet ''ab12''))
   \<and> list_all (\<lambda>rp. successOf rp = JBool False)
        (postReplies [SetPassword (demoSet ''ffff''), Evict, SetPassword \<lparr>reqMethod = ''GET'', reqBody = None\<rparr>]
           (fst (roomRun (snd (handleSetPassword demoRoom (demoSet ''ab12'')))
              [SetPassword (demoSet ''ffff''), Evict, SetPassword \<lparr>reqMethod = ''GET'', reqBody = None\<rparr>])))"
  using set_password_once [of demoRoom "demoSet ''ab12''" "JObj [(''passwordHash'', JStr ''ab12'')]" "''ab12''"
      "snd (handleSetPassword demoRoom (demoSet ''ab12''))"
      "[SetPassword (demoSet ''ffff''), Evict, SetPassword \<lparr>reqMethod = ''GET'', reqBody = None\<rparr>]"]
  by (simp add: demoRoom_def demoSet_def)

subsection \<open>The crypto envelope\<close>

lemma length_ivBytes: "length (ivBytes r) = 12"
  by (simp add: ivBytes_def)

lemma length_demoTag: "length (demoTag k iv) = 16"
  unfolding demoTag_def by (simp add: min_def)

lemma demoPlatform_correct: "aeadCorrect demoPlatform"
  by (simp add: aeadCorrect_def demoPlatform_def length_demoTag comp_def)

lemma demoPlatform_tagged: "gcmTagged demoPlatform"
  by (simp add: gcmTagged_def demoPlatform_def length_demoTag)

lemma slice_append_exact: "length xs = a \<Longrightarrow> length ys = b - a \<Longrightarrow> a \<le> b \<Longrightarrow> slice (xs @ ys @ zs) a b = ys"
  by (simp add: slice_def)

text \<open>What the receiver reads back from a frame that \<open>encryptChunk\<close> laid out.\<close>

lemma decryptChunk_plain_frame:
  assumes "length peerIv = 12"
  shows "decryptChunk W cm peerId (0 # peerIv @ encrypted) =
           decrypt W cm peerId encrypted peerIv"
  using assms by (simp add: decryptChunk_def slice_def split: sum.splits)

lemma decryptChunk_room_frame:
  assumes "length roomIv = 12" "length peerIv = 12"
  shows "decryptChunk W cm peerId (12 # roomIv @ peerIv @ encrypted) =
           (case decrypt W cm peerId encrypted peerIv of
              Inl e \<Rightarrow> Inl e
            | Inr decrypted \<Rightarrow>
                if hasRoomPassword cm then decryptWithRoomKey W cm decrypted (Some roomIv)
                else Inr decrypted)"
  using assms by (simp add: decryptChunk_def slice_def split: sum.splits)

lemma encryptChunk_no_room:
  assumes "\<not> hasRoomPassword tx" "sharedSecrets tx peerId = Some k"
  shows "encryptChunk W tx peerId r1 r2 P = Inr (0 # ivBytes r2 @ aesGcmEncrypt W k (ivBytes r2) P)"
  using assms by (simp add: encryptChunk_def encrypt_def)

lemma encryptChunk_room:
  assumes "hasRoomPassword tx" "roomKey tx = Some rk" "sharedSecrets tx peerId = Some k"
  shows "encryptChunk W tx peerId r1 r2 P =
           Inr (12 # ivBytes r1 @ ivBytes r2 @
                aesGcmEncrypt W k (ivBytes r2) (aesGcmEncrypt W rk (ivBytes r1) P))"
  using assms
  by (simp add: encryptChunk_def encrypt_def encryptWithRoomKey_def hasRoomPassword_def length_ivBytes)

text \<open>
  C1 (as amended). Two peers hold the same peer key, and AES-GCM decrypts what it
  encrypted. For a plaintext of any length: if the sender has no room password
  (whether the receiver has one or not), or the receiver has a room password with the
  sender's room key, then \<open>encryptChunk\<close> succeeds and \<open>decryptChunk\<close> returns the
  plaintext. If only the sender has a room password, \<open>encryptChunk\<close> succeeds and
  \<open>decryptChunk\<close> succeeds too, but what it returns is the room layer's ciphertext,
  the AES-GCM encryption of the plaintext under the sender's room key and room IV; with
  the 16-byte tag of AES-GCM this is never the plaintext.
\<close>

theorem chunk_round_trip:
  assumes "aeadCorrect W"
    and "sharedSecrets tx rxId = Some k" "sharedSecrets rx txId = Some k"
  shows "(\<not> hasRoomPassword tx \<or> (hasRoomPassword rx \<and> roomKey rx = roomKey tx) \<longrightarrow>
            (\<exists>c. encryptChunk W tx rxId r1 r2 P = Inr c \<and> decryptChunk W rx txId c = Inr P))
       \<and> (hasRoomPassword tx \<and> \<not> hasRoomPassword rx \<longrightarrow>
            (\<exists>c rk. roomKey tx = Some rk \<and> encryptChunk W tx rxId r1 r2 P = Inr c
                  \<and> decryptChunk W rx txId c = Inr (aesGcmEncrypt W rk (ivBytes r1) P)
                  \<and> (gcmTagged W \<longrightarrow> decryptChunk W rx txId c \<noteq> Inr P)))"
proof (intro conjI impI)
  have dec: "\<And>key iv p. aesGcmDecrypt W key iv (aesGcmEncrypt W key iv p) = Some p"
    using assms(1) by (simp add: aeadCorrect_def)
  assume same: "\<not> hasRoomPassword tx \<or> (hasRoomPassword rx \<and> roomKey rx = roomKey tx)"
  show "\<exists>c. encryptChunk W tx rxId r1 r2 P = Inr c \<and> decryptChunk W rx txId c = Inr P"
  proof (cases "hasRoomPassword tx")
    case False
    have "decryptChunk W rx txId (0 # ivBytes r2 @ aesGcmEncrypt W k (ivBytes r2) P) = Inr P"
      by (simp add: decryptChunk_plain_frame length_ivBytes decrypt_def assms(3) dec)
    with False assms(2) show ?thesis by (simp add: encryptChunk_no_room)
  next
    case True
    from True obtain rk where rk: "roomKey tx = Some rk" "roomPasswordSet tx"
      by (auto simp: hasRoomPassword_def)
    from True same have rx: "hasRoomPassword rx" "roomKey rx = Some rk" "roomPasswordSet rx"
      using rk by (auto simp: hasRoomPassword_def)
    have "decryptChunk W rx txId (12 # ivBytes r1 @ ivBytes r2 @
            aesGcmEncrypt W k (ivBytes r2) (aesGcmEncrypt W rk (ivBytes r1) P)) = Inr P"
      by (simp add: decryptChunk_room_frame length_ivBytes decrypt_def assms(3) dec rx
          decryptWithRoomKey_def)
    with True rk assms(2) show ?thesis by (simp add: encryptChunk_room)
  qed
next
  have dec: "\<And>key iv p. aesGcmDecrypt W key iv (aesGcmEncrypt W key iv p) = Some p"
    using assms(1) by (simp add: aeadCorrect_def)
  assume only: "hasRoomPassword tx \<and> \<not> hasRoomPassword rx"
  then obtain rk where rk: "roomKey tx = Some rk" by (auto simp: hasRoomPassword_def)
  define c where "c = 12 # ivBytes r1 @ ivBytes r2 @
            aesGcmEncrypt W k (ivBytes r2) (aesGcmEncrypt W rk (ivBytes r1) P)"
  have enc: "encryptChunk W tx rxId r1 r2 P = Inr c"
    unfolding c_def using only rk assms(2) by (simp add: encryptChunk_room)
  have out: "decryptChunk W rx txId c = Inr (aesGcmEncrypt W rk (ivBytes r1) P)"
    unfolding c_def using only
    by (simp add: decryptChunk_room_frame length_ivBytes decrypt_def assms(3) dec)
  have "gcmTagged W \<longrightarrow> decryptChunk W rx txId c \<noteq> Inr P"
  proof
    assume "gcmTagged W"
    then have "length (aesGcmEncrypt W rk (ivBytes r1) P) = length P + 16"
      by (simp add: gcmTagged_def)
    then have "aesGcmEncrypt W rk (ivBytes r1) P \<noteq> P" by auto
    then show "decryptChunk W rx txId c \<noteq> Inr P" by (simp add: out)
  qed
  with rk enc out
  show "\<exists>c rk. roomKey tx = Some rk \<and> encryptChunk W tx rxId r1 r2 P = Inr c
                  \<and> decryptChunk W rx txId c = Inr (aesGcmEncrypt W rk (ivBytes r1) P)
                  \<and> (gcmTagged W \<longrightarrow> decryptChunk W rx txId c \<noteq> Inr P)"
    by blast
qed

theorem chunk_round_trip_witness:
  "(\<exists>c. encryptChunk demoPlatform (demoSender\<lparr>roomKey := None, roomPasswordSet := False\<rparr>) ''bob'' 5 6 [1, 2, 3] = Inr c
      \<and> decryptChunk demoPlatform (demoReceiver\<lparr>roomKey := Some [7], roomPasswordSet := True\<rparr>) ''alice'' c = Inr [1, 2, 3])
   \<and> (\<exists>c. encryptChunk demoPlatform demoSender ''bob'' 5 6 [1, 2, 3] = Inr c
      \<and> decryptChunk demoPlatform demoReceiver ''alice'' c =
          Inr (aesGcmEncrypt demoPlatform [9, 9] (ivBytes 5) [1, 2, 3])
      \<and> decryptChunk demoPlatform demoReceiver ''alice'' c \<noteq> Inr [1, 2, 3])"
proof -
  have k1: "sharedSecrets (demoSender\<lparr>roomKey := None, roomPasswordSet := False\<rparr>) ''bob'' = Some [1, 2, 3, 4]"
    by (simp add: demoSender_def)
  have k2: "sharedSecrets (demoReceiver\<lparr>roomKey := Some [7], roomPasswordSet := True\<rparr>) ''alice'' = Some [1, 2, 3, 4]"
    by (simp add: demoReceiver_def)
  have n1: "\<not> hasRoomPassword (demoSender\<lparr>roomKey := None, roomPasswordSet := False\<rparr>)"
    by (simp add: hasRoomPassword_def)
  have a: "\<exists>c. encryptChunk demoPlatform (demoSender\<lparr>roomKey := None, roomPasswordSet := False\<rparr>) ''bob'' 5 6 [1, 2, 3] = Inr c
      \<and> decryptChunk demoPlatform (demoReceiver\<lparr>roomKey := Some [7], roomPasswordSet := True\<rparr>) ''alice'' c = Inr [1, 2, 3]"
    using chunk_round_trip [OF demoPlatform_correct k1 k2, of 5 6 "[1, 2, 3]"] n1 by blast
  have k3: "sharedSecrets demoSender ''bob'' = Some [1, 2, 3, 4]" by (simp add: demoSender_def)
  have k4: "sharedSecrets demoReceiver ''alice'' = Some [1, 2, 3, 4]" by (simp add: demoReceiver_def)
  have o: "hasRoomPassword demoSender \<and> \<not> hasRoomPassword demoReceiver"
    by (simp add: hasRoomPassword_def demoSender_def demoReceiver_def)
  have rk: "roomKey demoSender = Some [9, 9]" by (simp add: demoSender_def)
  have b: "\<exists>c. encryptChunk demoPlatform demoSender ''bob'' 5 6 [1, 2, 3] = Inr c
      \<and> decryptChunk demoPlatform demoReceiver ''alice'' c =
          Inr (aesGcmEncrypt demoPlatform [9, 9] (ivBytes 5) [1, 2, 3])
      \<and> decryptChunk demoPlatform demoReceiver ''alice'' c \<noteq> Inr [1, 2, 3]"
    using chunk_round_trip [OF demoPlatform_correct k3 k4, of 5 6 "[1, 2, 3]"] o rk
      demoPlatform_tagged by auto
  from a b show ?thesis by (rule conjI)
qed

text \<open>
  The claim as stated fails when only the sender has a room key: the receiver takes the
  peer layer off and returns the room layer's ciphertext, which is not the plaintext.
\<close>

theorem chunk_round_trip_counterexample:
  "\<not> isl (encryptChunk demoPlatform demoSender ''bob'' 5 6 [1, 2, 3])
   \<and> decryptChunk demoPlatform demoReceiver ''alice''
        (projr (encryptChunk demoPlatform demoSender ''bob'' 5 6 [1, 2, 3]))
      = Inr (aesGcmEncrypt demoPlatform [9, 9] (ivBytes 5) [1, 2, 3])
   \<and> aesGcmEncrypt demoPlatform [9, 9] (ivBytes 5) [1, 2, 3] \<noteq> [1, 2, 3]"
proof -
  have dec: "\<And>key iv p. aesGcmDecrypt demoPlatform key iv (aesGcmEncrypt demoPlatform key iv p) = Some p"
    using demoPlatform_correct by (simp add: aeadCorrect_def)
  have enc: "encryptChunk demoPlatform demoSender ''bob'' 5 6 [1, 2, 3] =
      Inr (12 # ivBytes 5 @ ivBytes 6 @
           aesGcmEncrypt demoPlatform [1, 2, 3, 4] (ivBytes 6) (aesGcmEncrypt demoPlatform [9, 9] (ivBytes 5) [1, 2, 3]))"
    by (rule encryptChunk_room) (simp_all add: demoSender_def hasRoomPassword_def)
  have "decryptChunk demoPlatform demoReceiver ''alice''
          (12 # ivBytes 5 @ ivBytes 6 @
           aesGcmEncrypt demoPlatform [1, 2, 3, 4] (ivBytes 6) (aesGcmEncrypt demoPlatform [9, 9] (ivBytes 5) [1, 2, 3]))
        = Inr (aesGcmEncrypt demoPlatform [9, 9] (ivBytes 5) [1, 2, 3])"
    by (simp add: decryptChunk_room_frame length_ivBytes decrypt_def dec demoReceiver_def hasRoomPassword_def)
  moreover have "length (aesGcmEncrypt demoPlatform [9, 9] (ivBytes 5) [1, 2, 3]) = 19"
    by (simp add: demoPlatform_def length_demoTag)
  then have "aesGcmEncrypt demoPlatform [9, 9] (ivBytes 5) [1, 2, 3] \<noteq> [1, 2, 3]"
    by auto
  ultimately show ?thesis using enc by simp
qed

text \<open>
  C2 (as amended). \<open>decryptChunk\<close> has no error for a missing room key. When the
  receiver has no room password, a chunk whose first byte \<open>roomIvLen\<close> is greater than 0
  is not refused: the room IV is skipped, the peer layer is taken off, and the result
  (still under the sender's room layer) is returned as it is. A chunk with
  \<open>roomIvLen = 0\<close> is accepted in the same way whether or not the receiver has a room
  password. In both cases the only errors are those of the peer layer.
\<close>

theorem room_layer_guard:
  assumes "\<not> hasRoomPassword cm \<or> b = 0"
  shows "decryptChunk W cm peerId (b # rest) =
           decrypt W cm peerId (drop (unat b + 12) rest) (take 12 (drop (unat b) rest))"
proof (cases "b = 0")
  case True
  then show ?thesis by (simp add: decryptChunk_def slice_def split: sum.splits)
next
  case False
  then have n: "0 < unat b" by (simp add: unat_gt_0)
  from False assms have nr: "\<not> hasRoomPassword cm" by simp
  have 1: "slice (b # rest) (1 + unat b) (1 + unat b + 12) = take 12 (drop (unat b) rest)"
    by (simp add: slice_def)
  have 2: "drop (1 + unat b + 12) (b # rest) = drop (unat b + 12) rest"
  proof -
    have "1 + unat b + 12 = Suc (unat b + 12)" by simp
    then show ?thesis by (simp only: drop_Suc_Cons)
  qed
  show ?thesis
    unfolding decryptChunk_def Let_def list.case option.case using n nr
    by (simp only: if_True 1 2 simp_thms if_False split: sum.splits) simp
qed

theorem room_layer_guard_witness:
  "decryptChunk demoPlatform (demoReceiver\<lparr>roomKey := Some [7], roomPasswordSet := True\<rparr>) ''alice''
      (0 # replicate 12 2 @ aesGcmEncrypt demoPlatform [1, 2, 3, 4] (replicate 12 2) [7, 7, 7])
    = Inr [7, 7, 7]"
proof -
  have dec: "\<And>key iv p. aesGcmDecrypt demoPlatform key iv (aesGcmEncrypt demoPlatform key iv p) = Some p"
    using demoPlatform_correct by (simp add: aeadCorrect_def)
  show ?thesis
    using room_layer_guard [of "demoReceiver\<lparr>roomKey := Some [7], roomPasswordSet := True\<rparr>" 0
        demoPlatform "''alice''"
        "replicate 12 2 @ aesGcmEncrypt demoPlatform [1, 2, 3, 4] (replicate 12 2) [7, 7, 7]"]
    by (simp add: decrypt_def demoReceiver_def dec)
qed

text \<open>
  The claim as stated fails: a chunk with \<open>roomIvLen = 12\<close>, received without a room
  password, is answered with bytes, not with an error.
\<close>

theorem room_key_missing_counterexample:
  "hd demoChunk = 12 \<and> \<not> hasRoomPassword demoReceiver
   \<and> decryptChunk demoPlatform demoReceiver ''alice'' demoChunk = Inr [7, 7, 7]"
proof -
  have dec: "\<And>key iv p. aesGcmDecrypt demoPlatform key iv (aesGcmEncrypt demoPlatform key iv p) = Some p"
    using demoPlatform_correct by (simp add: aeadCorrect_def)
  have "decryptChunk demoPlatform demoReceiver ''alice''
          (12 # replicate 12 1 @ replicate 12 2 @
             aesGcmEncrypt demoPlatform [1, 2, 3, 4] (replicate 12 2) [7, 7, 7]) = Inr [7, 7, 7]"
    by (simp add: decryptChunk_room_frame decrypt_def dec demoReceiver_def hasRoomPassword_def)
  then show ?thesis by (simp add: demoChunk_def demoReceiver_def hasRoomPassword_def)
qed

subsection \<open>The room password's minimum length\<close>

text \<open>
  C9 (as amended). \<open>setRoomPassword\<close> checks no length: for every non-empty password
  and non-empty room code it derives the PBKDF2 room key and marks the room password as
  set. The minimum of six characters is the first check of \<open>createSecureRoom\<close>: with a
  shorter password it returns \<open>false\<close> after the toast \<open>room.passwordMinLength\<close>,
  sends nothing to the hub and leaves the crypto manager as it was; with six characters
  or more, a well-formed room code and a reply \<open>{success: true}\<close> from the hub, it
  returns \<open>true\<close> with the room password set.
\<close>

theorem room_password_length:
  "(password \<noteq> [] \<and> roomCode \<noteq> [] \<longrightarrow>
      setRoomPassword W cm password roomCode =
        Inr (cm\<lparr>roomKey := Some (deriveRoomKeyFromPassword W password roomCode), roomPasswordSet := True\<rparr>)
      \<and> hasRoomPassword (cm\<lparr>roomKey := Some (deriveRoomKeyFromPassword W password roomCode), roomPasswordSet := True\<rparr>))
   \<and> (length password < 6 \<longrightarrow>
      createSecureRoom W reply cm a roomCode password =
        \<lparr>created = False, toasts = [''room.passwordMinLength''], posted = None, cmAfter = cm, appAfter = a\<rparr>)
   \<and> (6 \<le> length password \<and> CODE_PATTERN roomCode
        \<and> reply roomCode (hashPasswordForServer W password roomCode) = Some (JObj [(''success'', JBool True)]) \<longrightarrow>
      created (createSecureRoom W reply cm a roomCode password)
      \<and> hasRoomPassword (cmAfter (createSecureRoom W reply cm a roomCode password)))"
proof (intro conjI impI)
  assume "password \<noteq> [] \<and> roomCode \<noteq> []"
  then show "setRoomPassword W cm password roomCode =
        Inr (cm\<lparr>roomKey := Some (deriveRoomKeyFromPassword W password roomCode), roomPasswordSet := True\<rparr>)"
    by (simp add: setRoomPassword_def)
next
  show "hasRoomPassword (cm\<lparr>roomKey := Some (deriveRoomKeyFromPassword W password roomCode), roomPasswordSet := True\<rparr>)"
    by (simp add: hasRoomPassword_def)
next
  assume "length password < 6"
  then show "createSecureRoom W reply cm a roomCode password =
        \<lparr>created = False, toasts = [''room.passwordMinLength''], posted = None, cmAfter = cm, appAfter = a\<rparr>"
    by (simp add: createSecureRoom_def PASSWORD_MIN_LENGTH_def)
next
  assume h: "6 \<le> length password \<and> CODE_PATTERN roomCode
        \<and> reply roomCode (hashPasswordForServer W password roomCode) = Some (JObj [(''success'', JBool True)])"
  then have ne: "password \<noteq> []" "roomCode \<noteq> []" by (auto simp: CODE_PATTERN_def)
  from h ne show "created (createSecureRoom W reply cm a roomCode password)"
    by (simp add: createSecureRoom_def PASSWORD_MIN_LENGTH_def setRoomPassword_def Let_def)
  from h ne show "hasRoomPassword (cmAfter (createSecureRoom W reply cm a roomCode password))"
    by (simp add: createSecureRoom_def PASSWORD_MIN_LENGTH_def setRoomPassword_def Let_def hasRoomPassword_def)
qed

theorem room_password_length_witness:
  "hasRoomPassword (projr (setRoomPassword demoPlatform demoReceiver ''12345'' ''ABC234''))
   \<and> \<not> created (createSecureRoom demoPlatform (\<lambda>c h. Some (JObj [(''success'', JBool True)])) demoReceiver
          \<lparr>roomPassword = None, roomPasswordHash = None, isSecureRoom = False\<rparr> ''ABC234'' ''12345'')
   \<and> created (createSecureRoom demoPlatform (\<lambda>c h. Some (JObj [(''success'', JBool True)])) demoReceiver
          \<lparr>roomPassword = None, roomPasswordHash = None, isSecureRoom = False\<rparr> ''ABC234'' ''123456'')"
  using room_password_length [of "''12345''" "''ABC234''" demoPlatform demoReceiver
      "\<lambda>c h. Some (JObj [(''success'', JBool True)])"
      "\<lparr>roomPassword = None, roomPasswordHash = None, isSecureRoom = False\<rparr>"]
    room_password_length [of "''123456''" "''ABC234''" demoPlatform demoReceiver
      "\<lambda>c h. Some (JObj [(''success'', JBool True)])"
      "\<lparr>roomPassword = None, roomPasswordHash = None, isSecureRoom = False\<rparr>"]
  by (simp add: CODE_PATTERN_def isAlnum_def)

text \<open>The claim as stated fails: a password of length 5 is accepted by \<open>setRoomPassword\<close>.\<close>

theorem password_too_short_counterexample:
  "length ''12345'' = 5
   \<and> setRoomPassword demoPlatform demoReceiver ''12345'' ''ABC234'' =
       Inr (demoReceiver\<lparr>roomKey := Some (deriveRoomKeyFromPassword demoPlatform ''12345'' ''ABC234''),
                         roomPasswordSet := True\<rparr>)"
  by (simp add: setRoomPassword_def)

subsection \<open>Chunk counts\<close>

lemma ceil_div_nat:
  fixes c :: nat assumes "0 < c"
  shows "nat \<lceil>real sz / real c\<rceil> = (sz + (c - 1)) div c"
proof -
  define n where "n = (sz + (c - 1)) div c"
  have a: "n * c \<le> sz + (c - 1)" unfolding n_def by simp
  have "sz + (c - 1) < n * c + c"
    unfolding n_def using assms
    by (metis add.commute div_mult_mod_eq mod_less_divisor nat_add_left_cancel_less)
  then have b: "sz \<le> n * c" using assms by linarith
  have "real (n * c) \<le> real (sz + (c - 1))" using a by (simp only: of_nat_le_iff)
  then have a': "real n * real c \<le> real sz + real (c - 1)" by simp
  have c1: "real (c - 1) = real c - 1" using assms by (simp add: of_nat_diff)
  have "real sz \<le> real (n * c)" using b by (simp only: of_nat_le_iff)
  then have b': "real sz \<le> real n * real c" by simp
  have cpos: "0 < real c" using assms by simp
  have "\<lceil>real sz / real c\<rceil> = int n"
  proof (rule ceiling_unique)
    have "real n * real c - real c < real sz" using a' c1 by linarith
    then have "(real n - 1) * real c < real sz" by (simp add: algebra_simps)
    then have "real n - 1 < real sz / real c" using cpos by (simp add: pos_less_divide_eq)
    then show "real_of_int (int n) - 1 < real sz / real c" by simp
    have "real sz / real c \<le> real n" using b' cpos by (simp add: pos_divide_le_eq)
    then show "real sz / real c \<le> real_of_int (int n)" by simp
  qed
  then show ?thesis by (simp add: n_def)
qed

lemma CHUNK_SIZE_pos: "0 < CHUNK_SIZE"
  by (simp add: CHUNK_SIZE_def)

lemma totalChunks_div_sym: "totalChunks sz = (sz + (CHUNK_SIZE - 1)) div CHUNK_SIZE"
  unfolding totalChunks_def using CHUNK_SIZE_pos by (rule ceil_div_nat)

lemma totalChunks_div: "totalChunks sz = (sz + 65535) div 65536"
  by (simp add: totalChunks_div_sym CHUNK_SIZE_def)






subsection \<open>Room resolution\<close>

lemma splitChar_not_Nil: "splitChar d s \<noteq> []"
  by (induction s) (auto split: list.splits)

lemma splitChar_no_sep: "d \<notin> set g \<Longrightarrow> splitChar d g = [g]"
  by (induction g) auto

lemma splitChar_append_sep:
  "d \<notin> set g \<Longrightarrow> splitChar d (g @ d # rest) = g # splitChar d rest"
  by (induction g) auto

lemma splitChar_joinWith:
  assumes "gs \<noteq> []" "\<forall>g \<in> set gs. d \<notin> set g"
  shows "splitChar d (joinWith [d] gs) = gs"
  using assms
proof (induction "[d]" gs rule: joinWith.induct)
  case 1
  then show ?case by simp
next
  case (2 p)
  then show ?case by (simp add: splitChar_no_sep)
next
  case (3 p q ps)
  then show ?case by (simp add: splitChar_append_sep)
qed

text \<open>Strings in which \<open>::\<close> does not occur, and that do not end in a colon.\<close>

lemma splitDC_no_dc: "\<not> includesDC t \<Longrightarrow> splitDC t = [t]"
  by (induction t rule: includesDC.induct) auto

lemma splitDC_append_dc:
  assumes "\<not> includesDC (s @ [c])" "c \<noteq> CHR '':''" "\<not> includesDC t"
  shows "splitDC (s @ c # CHR '':'' # CHR '':'' # t) = (s @ [c]) # [t]"
  using assms
proof (induction s rule: includesDC.induct)
  case 1
  then show ?case by (simp add: splitDC_no_dc)
next
  case (2 a)
  then show ?case by (auto simp: splitDC_no_dc)
next
  case (3 a b cs)
  then show ?case by auto
qed

lemma includesDC_append_dc: "includesDC (s @ CHR '':'' # CHR '':'' # t)"
  by (induction s rule: includesDC.induct) auto

lemma splitDC_dc_prefix: "\<not> includesDC t \<Longrightarrow> splitDC (CHR '':'' # CHR '':'' # t) = [[], t]"
  by (simp add: splitDC_no_dc)

text \<open>Groups joined by single colons: no \<open>::\<close>, and the last character is of a group.\<close>

lemma includesDC_Cons_group:
  assumes "c \<noteq> CHR '':''"
  shows "includesDC (c # s) = includesDC s"
  using assms by (cases s) auto

lemma includesDC_group_append:
  assumes "CHR '':'' \<notin> set g"
  shows "includesDC (g @ s) = includesDC s"
  using assms by (induction g) (auto simp: includesDC_Cons_group)

lemma joined_groups_clean:
  assumes "\<forall>g \<in> set gs. isGroup g"
  shows "\<not> includesDC (joinWith '':'' gs)"
  using assms
proof (induction "'':''" gs rule: joinWith.induct)
  case 1
  then show ?case by simp
next
  case (2 p)
  then show ?case using includesDC_group_append [of p "[]"] by (simp add: isGroup_def)
next
  case (3 p q ps)
  then have q: "q \<noteq> []" "CHR '':'' \<notin> set q" and p: "CHR '':'' \<notin> set p"
    by (simp_all add: isGroup_def)
  from q obtain a q' where qa: "q = a # q'" "a \<noteq> CHR '':''" by (cases q) auto
  have "joinWith '':'' (q # ps) = a # tl (joinWith '':'' (q # ps))"
    using qa by (cases ps) simp_all
  then obtain r where r: "joinWith '':'' (q # ps) = a # r" by blast
  have "\<not> includesDC (a # r)" using 3 r by simp
  then have "\<not> includesDC (CHR '':'' # a # r)" using qa(2) by simp
  then show ?case using p r by (simp add: includesDC_group_append)
qed

lemma joined_groups_last:
  assumes "\<forall>g \<in> set gs. isGroup g" "gs \<noteq> []"
  shows "\<exists>s c. joinWith '':'' gs = s @ [c] \<and> c \<noteq> CHR '':''"
  using assms
proof (induction "'':''" gs rule: joinWith.induct)
  case 1
  then show ?case by simp
next
  case (2 p)
  then have "p \<noteq> []" "CHR '':'' \<notin> set p" by (simp_all add: isGroup_def)
  then have "p = butlast p @ [last p] \<and> last p \<noteq> CHR '':''"
    by (metis append_butlast_last_id last_in_set)
  then show ?case by (metis joinWith.simps(2))
next
  case (3 p q ps)
  then obtain s c where "joinWith '':'' (q # ps) = s @ [c]" "c \<noteq> CHR '':''" by auto
  then have "joinWith '':'' (p # q # ps) = (p @ '':'' @ s) @ [c] \<and> c \<noteq> CHR '':''" by simp
  then show ?case by blast
qed

lemma joined_groups_empty_iff:
  assumes "\<forall>g \<in> set gs. isGroup g"
  shows "joinWith '':'' gs = [] \<longleftrightarrow> gs = []"
proof (cases gs)
  case Nil
  then show ?thesis by simp
next
  case (Cons g gs')
  then have "g \<noteq> []" using assms by (simp add: isGroup_def)
  then show ?thesis using Cons by (cases gs') simp_all
qed

lemma splitDC_two_sides:
  assumes "\<forall>g \<in> set ls. isGroup g" "\<forall>g \<in> set rs. isGroup g"
  shows "splitDC (joinWith '':'' ls @ ''::'' @ joinWith '':'' rs) = [joinWith '':'' ls, joinWith '':'' rs]"
proof (cases "ls = []")
  case True
  then show ?thesis using joined_groups_clean [OF assms(2)] by (simp add: splitDC_no_dc)
next
  case False
  with assms(1) obtain s c where sc: "joinWith '':'' ls = s @ [c]" "c \<noteq> CHR '':''"
    using joined_groups_last by blast
  have "\<not> includesDC (s @ [c])" using joined_groups_clean [OF assms(1)] sc(1) by simp
  then have "splitDC (s @ c # CHR '':'' # CHR '':'' # joinWith '':'' rs) = (s @ [c]) # [joinWith '':'' rs]"
    using sc(2) joined_groups_clean [OF assms(2)] by (rule splitDC_append_dc)
  then show ?thesis by (simp add: sc(1))
qed

lemma split_side:
  assumes "\<forall>g \<in> set gs. isGroup g"
  shows "(if joinWith '':'' gs \<noteq> [] then splitChar CHR '':'' (joinWith '':'' gs) else []) = gs"
proof (cases "gs = []")
  case True
  then show ?thesis by simp
next
  case False
  have "\<forall>g \<in> set gs. CHR '':'' \<notin> set g" using assms by (simp add: isGroup_def)
  then have "splitChar CHR '':'' (joinWith '':'' gs) = gs"
    using False splitChar_joinWith [of gs "CHR '':''"] by simp
  then show ?thesis using False joined_groups_empty_iff [OF assms] by simp
qed

lemma padStart4_no_colon: "CHR '':'' \<notin> set g \<Longrightarrow> CHR '':'' \<notin> set (padStart4 g)"
  by (simp add: padStart4_def)

lemma joinWith_no_dot:
  assumes "\<forall>g \<in> set gs. CHR ''.'' \<notin> set g" "CHR ''.'' \<notin> set sep"
  shows "CHR ''.'' \<notin> set (joinWith sep gs)"
  using assms by (induction sep gs rule: joinWith.induct) auto

lemma joinWith_has_sep:
  "2 \<le> length gs \<Longrightarrow> c \<in> set (joinWith [c] gs)"
  by (induction "[c]" gs rule: joinWith.induct) auto

text \<open>The expansion of an address written with \<open>::\<close>, and of one written in full.\<close>

lemma expandIPv6_abbreviated:
  assumes "\<forall>g \<in> set ls. isGroup g" "\<forall>g \<in> set rs. isGroup g" "length ls + length rs \<le> 8"
  shows "expandIPv6 (joinWith '':'' ls @ ''::'' @ joinWith '':'' rs) =
           Inr (joinWith '':'' (map padStart4 (ls @ replicate (8 - length ls - length rs) ''0000'' @ rs)))"
proof -
  let ?ip = "joinWith '':'' ls @ ''::'' @ joinWith '':'' rs"
  have nodot: "CHR ''.'' \<notin> set ?ip"
    using assms(1,2) joinWith_no_dot [of ls "'':''"] joinWith_no_dot [of rs "'':''"]
    by (simp add: isGroup_def)
  have inc: "includesDC ?ip" using includesDC_append_dc [of "joinWith '':'' ls" "joinWith '':'' rs"] by simp
  have sp: "splitDC ?ip = [joinWith '':'' ls, joinWith '':'' rs]"
    using assms(1,2) by (rule splitDC_two_sides)
  show ?thesis
    unfolding expandIPv6_def Let_def
    using nodot inc assms(3)
    by (simp only: if_False if_True sp list.case split_side [OF assms(1)] split_side [OF assms(2)])
       simp
qed

lemma expandIPv6_full:
  assumes "\<forall>g \<in> set gs. isGroup g" "gs \<noteq> []"
  shows "expandIPv6 (joinWith '':'' gs) = Inr (joinWith '':'' (map padStart4 gs))"
proof -
  have nodot: "CHR ''.'' \<notin> set (joinWith '':'' gs)"
    using assms(1) joinWith_no_dot [of gs "'':''"] by (simp add: isGroup_def)
  have "\<forall>g \<in> set gs. CHR '':'' \<notin> set g" using assms(1) by (simp add: isGroup_def)
  then have sp: "splitChar CHR '':'' (joinWith '':'' gs) = gs"
    using assms(2) splitChar_joinWith [of gs "CHR '':''"] by simp
  show ?thesis
    unfolding expandIPv6_def Let_def
    using nodot joined_groups_clean [OF assms(1)] by (simp add: sp)
qed

lemma first_four_groups:
  assumes "\<forall>g \<in> set gs. CHR '':'' \<notin> set g" "gs \<noteq> []"
  shows "joinWith '':'' (take 4 (splitChar CHR '':'' (joinWith '':'' (map padStart4 gs)))) =
           joinWith '':'' (take 4 (map padStart4 gs))"
proof -
  have "\<forall>g \<in> set (map padStart4 gs). CHR '':'' \<notin> set g"
    using assms(1) by (simp add: padStart4_no_colon)
  then have "splitChar CHR '':'' (joinWith '':'' (map padStart4 gs)) = map padStart4 gs"
    using assms(2) splitChar_joinWith [of "map padStart4 gs" "CHR '':''"] by simp
  then show ?thesis by simp
qed

lemma differ_by_char: "c \<in> set s \<Longrightarrow> c \<notin> set t \<Longrightarrow> s \<noteq> t"
  by auto

lemma networkPart_ipv4:
  assumes "\<forall>g \<in> set [a, b, c, d]. CHR ''.'' \<notin> set g \<and> CHR '':'' \<notin> set g"
    and "joinWith ''.'' [a, b, c, d] \<noteq> ''127.0.0.1''"
  shows "networkPart (joinWith ''.'' [a, b, c, d]) = Inr (joinWith ''.'' [a, b, c])"
proof -
  let ?ip = "joinWith ''.'' [a, b, c, d]"
  have sp: "splitChar CHR ''.'' ?ip = [a, b, c, d]"
    using assms(1) splitChar_joinWith [of "[a, b, c, d]" "CHR ''.''"] by simp
  have dot: "CHR ''.'' \<in> set ?ip" by simp
  have nocolon: "CHR '':'' \<notin> set ?ip" using assms(1) by simp
  have ne: "?ip \<noteq> ''default''" "?ip \<noteq> ''::1''"
    using differ_by_char [OF dot, of "''default''"] differ_by_char [OF dot, of "''::1''"] by simp_all
  show ?thesis
    unfolding networkPart_def Let_def sp
    using dot nocolon ne assms(2) by simp
qed

lemma networkPart_ipv6_abbreviated:
  assumes "\<forall>g \<in> set ls. isGroup g" "\<forall>g \<in> set rs. isGroup g" "length ls + length rs \<le> 8"
    and "joinWith '':'' ls @ ''::'' @ joinWith '':'' rs \<noteq> ''::1''"
  shows "networkPart (joinWith '':'' ls @ ''::'' @ joinWith '':'' rs) =
           Inr (joinWith '':'' (take 4 (map padStart4
                  (ls @ replicate (8 - length ls - length rs) ''0000'' @ rs))))"
proof -
  let ?ip = "joinWith '':'' ls @ ''::'' @ joinWith '':'' rs"
  let ?full = "ls @ replicate (8 - length ls - length rs) ''0000'' @ rs"
  have nodot: "CHR ''.'' \<notin> set ?ip"
    using assms(1,2) joinWith_no_dot [of ls "'':''"] joinWith_no_dot [of rs "'':''"]
    by (simp add: isGroup_def)
  have colon: "CHR '':'' \<in> set ?ip" by simp
  have ne: "?ip \<noteq> ''default''" "?ip \<noteq> ''127.0.0.1''"
    using differ_by_char [OF colon, of "''default''"] differ_by_char [OF colon, of "''127.0.0.1''"]
    by simp_all
  have len: "length ?full = 8" using assms(3) by simp
  then have nonempty: "?full \<noteq> []" by auto
  have groups: "\<forall>g \<in> set ?full. CHR '':'' \<notin> set g"
    using assms(1,2) by (auto simp: isGroup_def)
  have ex: "expandIPv6 ?ip = Inr (joinWith '':'' (map padStart4 ?full))"
    using assms(1-3) by (rule expandIPv6_abbreviated)
  show ?thesis
    unfolding networkPart_def
    using nodot ne assms(4) first_four_groups [OF groups nonempty]
    by (simp only: ex if_False sum.case simp_thms)
qed

lemma networkPart_ipv6_full:
  assumes "\<forall>g \<in> set gs. isGroup g" "gs \<noteq> []" "joinWith '':'' gs \<noteq> ''default''"
  shows "networkPart (joinWith '':'' gs) = Inr (joinWith '':'' (take 4 (map padStart4 gs)))"
proof -
  let ?ip = "joinWith '':'' gs"
  have nodot: "CHR ''.'' \<notin> set ?ip"
    using assms(1) joinWith_no_dot [of gs "'':''"] by (simp add: isGroup_def)
  have ne1: "?ip \<noteq> ''127.0.0.1''" using nodot by auto
  have ne2: "?ip \<noteq> ''::1''" using joined_groups_clean [OF assms(1)] by auto
  have groups: "\<forall>g \<in> set gs. CHR '':'' \<notin> set g" using assms(1) by (simp add: isGroup_def)
  have ex: "expandIPv6 ?ip = Inr (joinWith '':'' (map padStart4 gs))"
    using assms(1,2) by (rule expandIPv6_full)
  show ?thesis
    unfolding networkPart_def
    using nodot ne1 ne2 assms(3) first_four_groups [OF groups assms(2)]
    by (simp only: ex if_False sum.case simp_thms)
qed

lemma take_toHex: "take (2 * n) (toHex bs) = toHex (take n bs)"
proof (induction bs arbitrary: n)
  case Nil
  then show ?case by (simp add: toHex_def)
next
  case (Cons b bs)
  show ?case
  proof (cases n)
    case 0
    then show ?thesis by (simp add: toHex_def)
  next
    case (Suc k)
    have "take (2 * k) (toHex bs) = toHex (take k bs)" by (rule Cons.IH)
    then show ?thesis using Suc by (simp add: toHex_def)
  qed
qed

lemma length_toHex: "length (toHex bs) = 2 * length bs"
  by (induction bs) (simp_all add: toHex_def)

lemma room_code_digits: "take 6 (toHex (take 8 h)) = toHex (take 3 h)"
proof -
  have "take 6 (toHex (take 8 h)) = toHex (take 3 (take 8 h))"
    using take_toHex [of 3 "take 8 h"] by simp
  then show ?thesis by simp
qed

text \<open>
  C7 (as amended). When no valid explicit room code is supplied, the room code is the
  upper-cased first six hex digits (the first three bytes) of the SHA-256 digest of the
  network part of the client address; with a digest of at least three bytes it has six
  characters. The network part is \<open>localhost\<close> for \<open>default\<close> (no address header),
  \<open>127.0.0.1\<close> and \<open>::1\<close>; the first three of four dot-separated parts for any other
  address \<open>a.b.c.d\<close> without a colon; and the first four zero-padded groups of the
  expansion for a colon-separated address, written in full or with one \<open>::\<close>.
\<close>

theorem auto_room_code:
  "(\<not> validExplicitRoom explicitRoom \<longrightarrow>
      resolveRoomCode W explicitRoom cf xff =
        (case networkPart (clientIP cf xff) of
           Inl e \<Rightarrow> Inl e
         | Inr part \<Rightarrow> Inr (toUpperCase (toHex (take 3 (sha256 W (utf8 part)))))))
   \<and> (3 \<le> length h \<longrightarrow> length (toUpperCase (toHex (take 3 h))) = 6)
   \<and> clientIP None None = ''default''
   \<and> networkPart ''default'' = Inr ''localhost''
   \<and> networkPart ''127.0.0.1'' = Inr ''localhost''
   \<and> networkPart ''::1'' = Inr ''localhost''
   \<and> ((\<forall>g \<in> set [a, b, c, d]. CHR ''.'' \<notin> set g \<and> CHR '':'' \<notin> set g)
        \<and> joinWith ''.'' [a, b, c, d] \<noteq> ''127.0.0.1'' \<longrightarrow>
      networkPart (joinWith ''.'' [a, b, c, d]) = Inr (joinWith ''.'' [a, b, c]))
   \<and> ((\<forall>g \<in> set gs. isGroup g) \<and> gs \<noteq> [] \<and> joinWith '':'' gs \<noteq> ''default'' \<longrightarrow>
      networkPart (joinWith '':'' gs) = Inr (joinWith '':'' (take 4 (map padStart4 gs))))
   \<and> ((\<forall>g \<in> set ls. isGroup g) \<and> (\<forall>g \<in> set rs. isGroup g) \<and> length ls + length rs \<le> 8
        \<and> joinWith '':'' ls @ ''::'' @ joinWith '':'' rs \<noteq> ''::1'' \<longrightarrow>
      networkPart (joinWith '':'' ls @ ''::'' @ joinWith '':'' rs) =
        Inr (joinWith '':'' (take 4 (map padStart4
               (ls @ replicate (8 - length ls - length rs) ''0000'' @ rs)))))"
proof (intro conjI impI)
  assume "\<not> validExplicitRoom explicitRoom"
  then show "resolveRoomCode W explicitRoom cf xff =
        (case networkPart (clientIP cf xff) of
           Inl e \<Rightarrow> Inl e
         | Inr part \<Rightarrow> Inr (toUpperCase (toHex (take 3 (sha256 W (utf8 part))))))"
    by (auto simp: validExplicitRoom_def resolveRoomCode_def generateRoomId_def room_code_digits
        split: option.splits sum.splits)
next
  assume "3 \<le> length h"
  then show "length (toUpperCase (toHex (take 3 h))) = 6"
    by (simp add: toUpperCase_def length_toHex)
next
  show "clientIP None None = ''default''" by (simp add: clientIP_def)
  show "networkPart ''default'' = Inr ''localhost''" by (simp add: networkPart_def)
  show "networkPart ''127.0.0.1'' = Inr ''localhost''" by (simp add: networkPart_def)
  show "networkPart ''::1'' = Inr ''localhost''" by (simp add: networkPart_def)
next
  assume "(\<forall>g \<in> set [a, b, c, d]. CHR ''.'' \<notin> set g \<and> CHR '':'' \<notin> set g)
        \<and> joinWith ''.'' [a, b, c, d] \<noteq> ''127.0.0.1''"
  then show "networkPart (joinWith ''.'' [a, b, c, d]) = Inr (joinWith ''.'' [a, b, c])"
    using networkPart_ipv4 [of a b c d] by blast
next
  assume "(\<forall>g \<in> set gs. isGroup g) \<and> gs \<noteq> [] \<and> joinWith '':'' gs \<noteq> ''default''"
  then show "networkPart (joinWith '':'' gs) = Inr (joinWith '':'' (take 4 (map padStart4 gs)))"
    using networkPart_ipv6_full [of gs] by blast
next
  assume "(\<forall>g \<in> set ls. isGroup g) \<and> (\<forall>g \<in> set rs. isGroup g) \<and> length ls + length rs \<le> 8
        \<and> joinWith '':'' ls @ ''::'' @ joinWith '':'' rs \<noteq> ''::1''"
  then show "networkPart (joinWith '':'' ls @ ''::'' @ joinWith '':'' rs) =
        Inr (joinWith '':'' (take 4 (map padStart4
               (ls @ replicate (8 - length ls - length rs) ''0000'' @ rs))))"
    using networkPart_ipv6_abbreviated [of ls rs] by blast
qed

theorem auto_room_code_witness:
  "resolveRoomCode demoPlatform None (Some ''192.168.1.7'') None =
      Inr (toUpperCase (toHex (take 3 (sha256 demoPlatform (utf8 ''192.168.1'')))))
   \<and> networkPart ''192.168.1.7'' = Inr ''192.168.1''
   \<and> networkPart ''2001:db8:85a3:0:0:8a2e:370:7334'' = Inr ''2001:0db8:85a3:0000''
   \<and> networkPart ''fe80::1'' = Inr ''fe80:0000:0000:0000''"
  using auto_room_code [of None demoPlatform "Some ''192.168.1.7''" None "[1, 2, 3]"
      "''192''" "''168''" "''1''" "''7''"
      "[''2001'', ''db8'', ''85a3'', ''0'', ''0'', ''8a2e'', ''370'', ''7334'']"
      "[''fe80'']" "[''1'']"]
  by (simp add: validExplicitRoom_def clientIP_def isGroup_def padStart4_def eval_nat_numeral)

text \<open>
  The claim as stated fails: the code takes six hex digits, not eight. For the loopback
  address the room code has six characters; the first eight hex digits of the same
  digest are another string.
\<close>

theorem room_code_eight_digits_counterexample:
  "resolveRoomCode demoPlatform None (Some ''127.0.0.1'') None = Inr ''6C6F63''
   \<and> toUpperCase (take 8 (toHex (sha256 demoPlatform (utf8 ''localhost'')))) = ''6C6F6361''"
  by code_simp

subsection \<open>Receiving over the relay\<close>

lemma grows_refl: "grows m m"
  by (simp add: grows_def)

lemma grows_trans: "grows a b \<Longrightarrow> grows b c \<Longrightarrow> grows a c"
  by (auto simp: grows_def)

lemma grows_emit: "grows m (emit e m)"
  by (simp add: grows_def emit_def)

lemma grows_setIncoming: "grows m (setIncoming peerId t m)"
  by (simp add: grows_def setIncoming_def)

lemma grows_sendChunkAck: "grows m (sendChunkAck peerId fileId acks m)"
  by (simp add: sendChunkAck_def grows_emit)

lemma grows_handleChunk: "grows m (handleChunk W peerId fileId idx dat m)"
proof -
  have a: "\<And>t acks. grows m (sendChunkAck peerId fileId acks (setIncoming peerId t m))"
    using grows_trans [OF grows_setIncoming grows_sendChunkAck] by blast
  show ?thesis
    unfolding handleChunk_def Let_def
    by (auto simp: grows_refl grows_emit grows_setIncoming grows_sendChunkAck a
        split: option.splits sum.splits)
qed

lemma grows_handleChunks: "grows m (handleChunks W peerId fs m)"
proof (induction fs arbitrary: m)
  case Nil
  then show ?case by (simp add: grows_refl)
next
  case (Cons f fs)
  obtain fileId idx dat where f: "f = (fileId, idx, dat)" by (cases f) auto
  show ?case
    unfolding f handleChunks.simps
    using grows_trans [OF grows_handleChunk Cons] .
qed

lemma grows_waitForChunks: "grows m (waitForChunks W peerId e ticks m)"
proof (induction ticks arbitrary: m)
  case Nil
  then show ?case by (simp add: grows_refl)
next
  case (Cons tk ticks)
  obtain elapsed fs where tk: "tk = (elapsed, fs)" by (cases tk) auto
  show ?case
    unfolding tk waitForChunks.simps Let_def
    using grows_handleChunks grows_trans [OF grows_handleChunks Cons]
    by (simp split: if_splits)
qed

lemma grows_finishFileEnd: "grows m (finishFileEnd peerId e m)"
  unfolding finishFileEnd_def Let_def
  by (auto simp: grows_def emit_def split: option.splits)

lemma grows_handleFileEnd: "grows m (handleFileEnd W peerId tc ticks m)"
proof (cases "incomingTransfers m peerId")
  case None
  then show ?thesis by (simp add: handleFileEnd_def grows_refl)
next
  case (Some t)
  define m1 where "m1 = (case pendingAcks t of
                       None \<Rightarrow> m
                     | Some acks \<Rightarrow>
                         if acks \<noteq> []
                         then sendChunkAck peerId (inFileId t) acks
                                (setIncoming peerId (t\<lparr>pendingAcks := Some []\<rparr>) m)
                         else m)"
  have g1: "grows m m1"
    unfolding m1_def
    using grows_trans [OF grows_setIncoming grows_sendChunkAck]
    by (auto simp: grows_refl split: option.splits)
  define m2 where "m2 = (case expectedCountOf tc t of
                       None \<Rightarrow> m1
                     | Some e \<Rightarrow>
                         if card (receivedSet t) < e then waitForChunks W peerId e ticks m1 else m1)"
  have g2: "grows m1 m2"
    unfolding m2_def by (auto simp: grows_refl grows_waitForChunks split: option.splits)
  have "handleFileEnd W peerId tc ticks m = finishFileEnd peerId (expectedCountOf tc t) m2"
    by (simp only: handleFileEnd_def Some Let_def m1_def m2_def option.case)
  then show ?thesis
    using grows_trans [OF grows_trans [OF g1 g2] grows_finishFileEnd] by simp
qed

lemma grows_handleFileStart: "grows m (handleFileStart now peerId fileId nm sz mime tc m)"
  unfolding handleFileStart_def Let_def
  by (auto simp: grows_def emit_def setIncoming_def split: option.splits)

lemma grows_handleFileCancel: "grows m (handleFileCancel peerId fileId reason m)"
  unfolding handleFileCancel_def Let_def
  by (auto simp: grows_def emit_def split: option.splits)

lemma grows_handleRelayAck: "grows m (fst (handleRelayAck now fileId acks m))"
  unfolding handleRelayAck_def
  by (auto simp: grows_def split: option.splits)

lemma enterRelayMode_idem:
  "inRelayMode m peerId \<Longrightarrow> enterRelayMode peerId m = m"
  by (simp add: enterRelayMode_def)

lemma enterRelayMode_in: "inRelayMode (enterRelayMode peerId m) peerId"
  by (simp add: enterRelayMode_def inRelayMode_def notifyConnectionState_def emit_def)

lemma grows_payload:
  "grows (enterRelayMode peerId m) (fst (handleRelayData W now ticks m peerId dat))"
  unfolding handleRelayData_def Let_def
  by (cases dat)
     (simp_all add: grows_handleFileStart grows_handleFileCancel grows_handleFileEnd
        grows_handleChunk grows_handleRelayAck grows_emit grows_refl)

text \<open>
  C10. A \<open>relay-data\<close> frame of any kind, from a peer that is not marked as being in
  relay mode, is handled as it would be with the mark set and the observer notified
  first: the first thing the handler adds to what the manager did is the notification
  \<open>relay\<close> with a null message, and the peer is in relay mode afterwards. The
  background retry's timer and its attempt counter are as they were, for every peer;
  \<open>_switchToRelay\<close>, the sender's switch, arms the timer.
\<close>

theorem relay_data_marks_relay_mode:
  assumes "\<not> inRelayMode m peerId" "onConnectionStateChange m"
  shows "handleRelayData W now ticks m peerId dat =
           handleRelayData W now ticks
             (m\<lparr>relayMode := (relayMode m)(peerId \<mapsto> True),
                effects := effects m @ [ConnectionStateChange peerId ''relay'' None]\<rparr>) peerId dat
       \<and> (\<exists>es. effects (fst (handleRelayData W now ticks m peerId dat)) =
                 effects m @ ConnectionStateChange peerId ''relay'' None # es)
       \<and> inRelayMode (fst (handleRelayData W now ticks m peerId dat)) peerId
       \<and> p2pRetryTimers (fst (handleRelayData W now ticks m peerId dat)) = p2pRetryTimers m
       \<and> p2pRetryAttempts (fst (handleRelayData W now ticks m peerId dat)) = p2pRetryAttempts m
       \<and> p2pRetryTimers (switchToRelay now peerId message silent m) peerId =
           Some (now + P2P_RETRY_INITIAL_DELAY)"
proof -
  let ?m0 = "m\<lparr>relayMode := (relayMode m)(peerId \<mapsto> True),
                effects := effects m @ [ConnectionStateChange peerId ''relay'' None]\<rparr>"
  have m0: "enterRelayMode peerId m = ?m0"
    using assms by (simp add: enterRelayMode_def notifyConnectionState_def emit_def)
  have in0: "inRelayMode ?m0 peerId" by (simp add: inRelayMode_def)
  have same: "handleRelayData W now ticks m peerId dat = handleRelayData W now ticks ?m0 peerId dat"
    unfolding handleRelayData_def Let_def m0 enterRelayMode_idem [OF in0] ..
  have g: "grows ?m0 (fst (handleRelayData W now ticks m peerId dat))"
    using grows_payload [of peerId m W now ticks dat] by (simp only: m0)
  then obtain es where es: "effects (fst (handleRelayData W now ticks m peerId dat)) =
      (effects m @ [ConnectionStateChange peerId ''relay'' None]) @ es"
    by (auto simp: grows_def)
  have rm: "relayMode (fst (handleRelayData W now ticks m peerId dat)) = (relayMode m)(peerId \<mapsto> True)"
    using g by (simp add: grows_def)
  have t: "p2pRetryTimers (fst (handleRelayData W now ticks m peerId dat)) = p2pRetryTimers m"
    and a: "p2pRetryAttempts (fst (handleRelayData W now ticks m peerId dat)) = p2pRetryAttempts m"
    using g by (simp_all add: grows_def)
  have sw: "p2pRetryTimers (switchToRelay now peerId message silent m) peerId =
           Some (now + P2P_RETRY_INITIAL_DELAY)"
    using assms(1)
    by (simp add: switchToRelay_def Let_def startBackgroundP2PRetry_def stopBackgroundP2PRetry_def
        notifyConnectionState_def emit_def split: option.splits)
  from same es rm t a sw show ?thesis by (simp add: inRelayMode_def)
qed

theorem relay_data_marks_relay_mode_witness:
  "(\<exists>es. effects (fst (handleRelayData demoPlatform 0 [] emptyManager ''alice'' (RText ''hi''))) =
            effects emptyManager @ ConnectionStateChange ''alice'' ''relay'' None # es)
   \<and> inRelayMode (fst (handleRelayData demoPlatform 0 [] emptyManager ''alice'' (RText ''hi''))) ''alice''
   \<and> p2pRetryTimers (fst (handleRelayData demoPlatform 0 [] emptyManager ''alice'' (RText ''hi''))) = Map.empty
   \<and> p2pRetryTimers (switchToRelay 0 ''alice'' None True emptyManager) ''alice'' = Some 10000"
proof -
  have h1: "\<not> inRelayMode emptyManager ''alice''" by (simp add: emptyManager_def inRelayMode_def)
  have h2: "onConnectionStateChange emptyManager" by (simp add: emptyManager_def)
  have e: "p2pRetryTimers emptyManager = Map.empty" by (simp add: emptyManager_def)
  note w = relay_data_marks_relay_mode [OF h1 h2, of demoPlatform 0 "[]" "RText ''hi''" None True]
  from w have c1: "\<exists>es. effects (fst (handleRelayData demoPlatform 0 [] emptyManager ''alice'' (RText ''hi''))) =
            effects emptyManager @ ConnectionStateChange ''alice'' ''relay'' None # es" by blast
  from w have c2: "inRelayMode (fst (handleRelayData demoPlatform 0 [] emptyManager ''alice'' (RText ''hi''))) ''alice''"
    by blast
  from w have c3: "p2pRetryTimers (fst (handleRelayData demoPlatform 0 [] emptyManager ''alice'' (RText ''hi''))) =
      p2pRetryTimers emptyManager" by blast
  from w have c4: "p2pRetryTimers (switchToRelay 0 ''alice'' None True emptyManager) ''alice'' =
      Some (0 + P2P_RETRY_INITIAL_DELAY)" by blast
  from c1 c2 c3 c4 show ?thesis by (simp add: e P2P_RETRY_INITIAL_DELAY_def)
qed
















lemma full_when_count_matches:
  fixes R :: "nat set"
  assumes "R \<subseteq> {0..<n}" "card R = n"
  shows "R = {0..<n}"
  using assms by (simp add: card_subset_eq)






subsection \<open>The fast-fallback decision\<close>



















subsection \<open>Sending over the relay\<close>

lemma oldestFrom_shape:
  "oldestFrom old t ps = old \<or> (\<exists>p \<in> set ps. oldestFrom old t ps = spread (fst p) (snd p))"
proof (induction ps arbitrary: old t)
  case Nil
  then show ?case by simp
next
  case (Cons p ps)
  obtain i info where p: "p = (i, info)" by (cases p)
  show ?case
    using Cons.IH [of "spread i info" "Some (sentAt info)"] Cons.IH [of old t]
    by (auto simp: p)
qed

lemma getOldestPendingChunk_shape:
  assumes "pendingChunks rs \<noteq> []"
  shows "\<exists>p \<in> set (pendingChunks rs). getOldestPendingChunk rs = spread (fst p) (snd p)"
proof -
  obtain i info rest where ps: "pendingChunks rs = (i, info) # rest"
    using assms by (cases "pendingChunks rs") auto
  have "getOldestPendingChunk rs = oldestFrom (spread i info) (Some (sentAt info)) rest"
    by (simp add: getOldestPendingChunk_def ps)
  then show ?thesis
    using oldestFrom_shape [of "spread i info" "Some (sentAt info)" rest]
    by (auto simp: ps)
qed

lemma retransmitOldest_spread:
  assumes "getOldestPendingChunk rs = spread i info"
  shows "retransmitOldest peerId fileId now rs m =
           Inl (if MAX_CHUNK_RETRIES \<le> retries info then RetransmitExhausted else TypeError)"
  by (simp add: retransmitOldest_def assms spread_def Let_def)

lemma retransmitOldest_empty:
  assumes "pendingChunks rs = []"
  shows "retransmitOldest peerId fileId now rs m = Inr m"
  by (simp add: retransmitOldest_def getOldestPendingChunk_def assms Let_def)

text \<open>The retransmission block changes nothing: it passes or it throws.\<close>

lemma retransmitOldest_cases:
  "retransmitOldest peerId fileId now rs m = Inr m
   \<or> retransmitOldest peerId fileId now rs m = Inl RetransmitExhausted
   \<or> retransmitOldest peerId fileId now rs m = Inl TypeError"
proof (cases "pendingChunks rs = []")
  case True
  then show ?thesis by (simp add: retransmitOldest_empty)
next
  case False
  then obtain p where "getOldestPendingChunk rs = spread (fst p) (snd p)"
    using getOldestPendingChunk_shape by blast
  then show ?thesis by (simp add: retransmitOldest_spread)
qed

lemma retransmitOldest_full:
  assumes "WINDOW_SIZE \<le> length (pendingChunks rs)"
  shows "retransmitOldest peerId fileId now rs m = Inl RetransmitExhausted
       \<or> retransmitOldest peerId fileId now rs m = Inl TypeError"
proof -
  have "pendingChunks rs \<noteq> []" using assms by (auto simp: WINDOW_SIZE_def)
  then obtain p where "getOldestPendingChunk rs = spread (fst p) (snd p)"
    using getOldestPendingChunk_shape by blast
  then show ?thesis by (simp add: retransmitOldest_spread)
qed

lemma retransmitOldest_fresh:
  assumes "WINDOW_SIZE \<le> length (pendingChunks rs)"
    and "\<forall>p \<in> set (pendingChunks rs). retries (snd p) < MAX_CHUNK_RETRIES"
  shows "retransmitOldest peerId fileId now rs m = Inl TypeError"
proof -
  have "pendingChunks rs \<noteq> []" using assms(1) by (auto simp: WINDOW_SIZE_def)
  then obtain p where p: "p \<in> set (pendingChunks rs)"
      "getOldestPendingChunk rs = spread (fst p) (snd p)"
    using getOldestPendingChunk_shape by blast
  have "\<not> MAX_CHUNK_RETRIES \<le> retries (snd p)" using assms(2) p(1) by auto
  then show ?thesis by (simp add: retransmitOldest_spread [OF p(2)])
qed

lemma flowControl_stalled:
  assumes "activeTransfers m fileId = Some transfer" "relaySt transfer = Some rs"
    and "WINDOW_SIZE \<le> length (pendingChunks rs)" "ACK_TIMEOUT < now - lastAckTime rs"
  shows "flowControl W ivs peerId f fileId offset chunkIndex now ticks m =
           (m, Threw (case retransmitOldest peerId fileId now rs m of Inl e \<Rightarrow> e | Inr x \<Rightarrow> TypeError))"
  using retransmitOldest_full [OF assms(3), of peerId fileId "now" m]
  by (subst flowControl.simps) (auto simp: assms)

subsection \<open>No frame of the sender retransmits a chunk\<close>

lemma noRetransmission_refl: "noRetransmission m m"
  by (simp add: noRetransmission_def)

lemma noRetransmission_trans:
  assumes "noRetransmission a b" "noRetransmission b c"
  shows "noRetransmission a c"
proof -
  from assms obtain s1 s2 where
    "effects b = effects a @ s1" "\<not> list_ex isRetransmission s1"
    "effects c = effects b @ s2" "\<not> list_ex isRetransmission s2"
    unfolding noRetransmission_def by blast
  then have "effects c = effects a @ (s1 @ s2) \<and> \<not> list_ex isRetransmission (s1 @ s2)"
    by (auto simp: list_ex_iff)
  then show ?thesis unfolding noRetransmission_def by blast
qed

lemma noRetransmission_same:
  assumes "effects m' = effects m"
  shows "noRetransmission m m'"
  by (simp add: noRetransmission_def assms)

lemma noRetransmission_emit:
  assumes "\<not> isRetransmission e"
  shows "noRetransmission m (emit e m)"
  unfolding noRetransmission_def emit_def using assms
  by (intro exI [of _ "[e]"]) simp

lemma handleRelayAck_effects: "effects (fst (handleRelayAck t fileId acks m)) = effects m"
  by (simp add: handleRelayAck_def split: option.splits)

lemma handleFileCancel_noRetransmission:
  "noRetransmission m (handleFileCancel peerId fileId reason m)"
proof -
  define m1 where "m1 = (case activeTransfers m fileId of
                  None \<Rightarrow> m
                | Some t \<Rightarrow> m\<lparr>activeTransfers := (activeTransfers m)(fileId \<mapsto> t\<lparr>cancelled := True\<rparr>)\<rparr>)"
  define m2 where "m2 = (case incomingTransfers m1 peerId of
                  None \<Rightarrow> m1
                | Some it \<Rightarrow>
                    if inFileId it = fileId
                    then m1\<lparr>incomingTransfers := (incomingTransfers m1)(peerId := None)\<rparr>
                    else m1)"
  define m3 where "m3 = (case pendingFileRequests m2 fileId of
                  None \<Rightarrow> m2
                | Some p \<Rightarrow> emit (PendingRejected fileId)
                              (m2\<lparr>pendingFileRequests := (pendingFileRequests m2)(fileId := None)\<rparr>))"
  have e1: "effects m1 = effects m" by (simp add: m1_def split: option.splits)
  have e2: "effects m2 = effects m1" by (simp add: m2_def split: option.splits)
  have a: "noRetransmission m m2" using e1 e2 by (simp add: noRetransmission_same)
  have b: "noRetransmission m2 m3"
  proof (cases "pendingFileRequests m2 fileId")
    case None
    then show ?thesis by (simp add: m3_def noRetransmission_refl)
  next
    case (Some p)
    have "noRetransmission (m2\<lparr>pendingFileRequests := (pendingFileRequests m2)(fileId := None)\<rparr>) m3"
      unfolding m3_def Some by (simp add: noRetransmission_emit)
    moreover have "noRetransmission m2 (m2\<lparr>pendingFileRequests := (pendingFileRequests m2)(fileId := None)\<rparr>)"
      by (simp add: noRetransmission_same)
    ultimately show ?thesis by (rule noRetransmission_trans [rotated])
  qed
  have c: "noRetransmission m3 (if onTransferCancelled m3 then emit (TransferCancelledShown peerId fileId reason) m3 else m3)"
    by (simp add: noRetransmission_emit noRetransmission_refl)
  have "handleFileCancel peerId fileId reason m =
      (if onTransferCancelled m3 then emit (TransferCancelledShown peerId fileId reason) m3 else m3)"
    by (simp only: handleFileCancel_def Let_def m1_def m2_def m3_def)
  then show ?thesis
    using noRetransmission_trans [OF noRetransmission_trans [OF a b] c] by simp
qed

lemma arrive_noRetransmission: "noRetransmission m (arrive peerId fileId m a)"
  by (cases a) (simp_all add: handleRelayAck_effects noRetransmission_same
      handleFileCancel_noRetransmission)

lemma foldl_arrive_noRetransmission:
  "noRetransmission m (foldl (arrive peerId fileId) m as)"
proof (induction as arbitrary: m)
  case Nil
  then show ?case by (simp add: noRetransmission_refl)
next
  case (Cons a as)
  show ?case
    using noRetransmission_trans [OF arrive_noRetransmission Cons.IH] by simp
qed

lemma suspended_noRetransmission: "noRetransmission m (suspended peerId fileId tk m)"
  by (simp add: suspended_def foldl_arrive_noRetransmission)

lemma trackPending_effects: "effects (trackPending fileId chunkIndex info m) = effects m"
  by (simp add: trackPending_def split: option.splits)

lemma first_send_noRetransmission:
  "noRetransmission m (sendChunk peerId fileId index base64Data 0 (trackPending fileId chunkIndex info m))"
  using noRetransmission_trans [OF noRetransmission_same [OF trackPending_effects]
      noRetransmission_emit, of "Signal (RelayData peerId (RChunk fileId index base64Data False))"
      m fileId chunkIndex info]
  by (simp add: sendChunk_def)

lemma sendFileEnd_noRetransmission:
  "noRetransmission m (fst (sendFileEnd peerId fileId tc ticks m))"
proof (cases ticks)
  case Nil
  then show ?thesis by (simp add: sendFileEnd_def noRetransmission_refl)
next
  case (Cons tk rest)
  show ?thesis
    using noRetransmission_trans [OF suspended_noRetransmission noRetransmission_emit,
        of "Signal (RelayData peerId (RFileEnd fileId (Some tc)))" m peerId fileId tk]
    by (simp add: sendFileEnd_def Cons)
qed

lemma ackWait_noRetransmission:
  "noRetransmission m (fst (ackWait peerId fileId tc ackWaitStart now ticks m))"
proof (induction ticks arbitrary: m "now")
  case Nil
  show ?case
    by (subst ackWait.simps)
       (simp add: noRetransmission_refl sendFileEnd_noRetransmission split: option.splits)
next
  case (Cons tk rest)
  have step: "noRetransmission m
      (fst (ackWait peerId fileId tc ackWaitStart (wake tk) rest (suspended peerId fileId tk m)))"
    using noRetransmission_trans [OF suspended_noRetransmission Cons.IH] .
  show ?case
    by (subst ackWait.simps)
       (simp add: noRetransmission_refl sendFileEnd_noRetransmission step split: option.splits)
qed


lemma relay_noRetransmission:
  "noRetransmission m (fst (relayLoop W ivs peerId f fileId offset chunkIndex now ticks m))"
  "noRetransmission m (fst (flowControl W ivs peerId f fileId offset chunkIndex now ticks m))"
proof (induction W ivs peerId f fileId offset chunkIndex "now" ticks m
    and W ivs peerId f fileId offset chunkIndex "now" ticks m rule: relayLoop_flowControl.induct)
  case (1 W ivs peerId f fileId offset chunkIndex now ticks m)
  then show ?case
    by (subst relayLoop.simps)
       (auto simp: noRetransmission_refl ackWait_noRetransmission split: option.splits)
next
  case (2 W ivs peerId f fileId offset chunkIndex now ticks m)
  show ?case
  proof (cases "activeTransfers m fileId")
    case None
    then show ?thesis by (subst flowControl.simps) (simp add: noRetransmission_refl)
  next
    case (Some transfer)
    note tr = Some
    show ?thesis
    proof (cases "relaySt transfer")
      case None
      then show ?thesis by (subst flowControl.simps) (simp add: tr noRetransmission_refl)
    next
      case (Some rs)
      note st = Some
      show ?thesis
      proof (cases "WINDOW_SIZE \<le> length (pendingChunks rs)")
        case True
        note full = True
        show ?thesis
        proof (cases "ACK_TIMEOUT < now - lastAckTime rs")
          case True
          show ?thesis
            by (simp add: flowControl_stalled [OF tr st full True] noRetransmission_refl)
        next
          case False
          have pass: "(if ACK_TIMEOUT < now - lastAckTime rs
                       then retransmitOldest peerId fileId now rs m else Inr m) = Inr m"
            using False by simp
          show ?thesis
          proof (cases ticks)
            case Nil
            then show ?thesis
              by (subst flowControl.simps) (simp add: tr st full False noRetransmission_refl)
          next
            case (Cons tk rest)
            show ?thesis
            proof (cases "cancelled transfer")
              case True
              then show ?thesis
                by (subst flowControl.simps) (simp add: tr st full False noRetransmission_refl)
            next
              case nc: False
              have "noRetransmission (suspended peerId fileId tk m)
                  (fst (flowControl W ivs peerId f fileId offset chunkIndex (wake tk) rest
                          (suspended peerId fileId tk m)))"
                using tr st full pass nc Cons by (rule "2.IH"(1))
              then have "noRetransmission m
                  (fst (flowControl W ivs peerId f fileId offset chunkIndex (wake tk) rest
                          (suspended peerId fileId tk m)))"
                using suspended_noRetransmission noRetransmission_trans by blast
              then show ?thesis
                by (subst flowControl.simps) (simp add: tr st full False nc Cons)
            qed
          qed
        qed
      next
        case False
        note room = False
        show ?thesis
        proof (cases "TRANSFER_TIMEOUT < now - lastAckTime rs \<and> 0 < chunkIndex")
          case True
          then show ?thesis
            by (subst flowControl.simps) (simp add: tr st room noRetransmission_refl)
        next
          case False
          note live = False
          show ?thesis
          proof (cases "encryptChunk W (crypto m) peerId (fst (ivs chunkIndex)) (snd (ivs chunkIndex))
                            (slice (content f) offset (offset + CHUNK_SIZE))")
            case (Inl e)
            then show ?thesis
              using live by (subst flowControl.simps) (simp add: tr st room noRetransmission_refl)
          next
            case (Inr encrypted)
            define m2 where "m2 = sendChunk peerId fileId (Some chunkIndex) (btoa W encrypted) 0
                (trackPending fileId chunkIndex
                   \<lparr>base64 = btoa W encrypted, retries = 0, sentAt = now\<rparr> m)"
            have s: "noRetransmission m m2"
              unfolding m2_def by (rule first_send_noRetransmission)
            show ?thesis
            proof (cases ticks)
              case Nil
              then show ?thesis
                using live s
                by (subst flowControl.simps) (simp add: tr st room Inr Let_def m2_def noRetransmission_refl)
            next
              case (Cons tk rest)
              have "noRetransmission (suspended peerId fileId tk m2)
                  (fst (relayLoop W ivs peerId f fileId (offset + CHUNK_SIZE) (chunkIndex + 1)
                          (wake tk) rest (suspended peerId fileId tk m2)))"
                using tr st room live Inr refl refl m2_def Cons by (rule "2.IH"(2))
              then have "noRetransmission m
                  (fst (relayLoop W ivs peerId f fileId (offset + CHUNK_SIZE) (chunkIndex + 1)
                          (wake tk) rest (suspended peerId fileId tk m2)))"
                using s suspended_noRetransmission noRetransmission_trans by blast
              then show ?thesis
                using live
                by (subst flowControl.simps) (simp add: tr st room Inr Let_def m2_def Cons noRetransmission_refl)
            qed
          qed
        qed
      qed
    qed
  qed
qed

lemma sendFileDataViaRelay_noRetransmission:
  "noRetransmission m (fst (sendFileDataViaRelay W ivs kx now m peerId f fileId ticks))"
proof -
  define m1 where "m1 = m\<lparr>activeTransfers := (activeTransfers m)(fileId \<mapsto>
                   \<lparr>atPeerId = peerId, atDirection = Send, cancelled = False,
                    relaySt = Some \<lparr>ackedChunks = {}, pendingChunks = [], lastAckTime = now\<rparr>\<rparr>)\<rparr>"
  define r where "r = (if hasSharedSecret (crypto m1) peerId then (m1, Inr now)
                        else exchangeKeysViaSignaling kx peerId m1)"
  have a: "noRetransmission m m1" by (simp add: m1_def noRetransmission_same)
  have "noRetransmission m1 (fst (exchangeKeysViaSignaling kx peerId m1))"
    by (auto simp: exchangeKeysViaSignaling_def Let_def noRetransmission_def emit_def
        split: option.splits)
  then have "noRetransmission m1 (fst r)" by (simp add: r_def noRetransmission_refl)
  with a have b: "noRetransmission m (fst r)" by (rule noRetransmission_trans)
  show ?thesis
  proof (cases "snd r")
    case (Inl e)
    then show ?thesis
      using b by (simp add: sendFileDataViaRelay_def Let_def m1_def [symmetric] r_def [symmetric]
          split_beta)
  next
    case (Inr t)
    define m3 where "m3 = emit (Signal (RelayData peerId
                          (RFileStart fileId (fileName f) (length (content f)) (mimeOf (fileType f))
                             (Some (totalChunks (length (content f))))))) (fst r)"
    have "noRetransmission (fst r) m3" unfolding m3_def by (simp add: noRetransmission_emit)
    with b have c: "noRetransmission m m3" by (rule noRetransmission_trans)
    have "noRetransmission m3 (fst (relayLoop W ivs peerId f fileId 0 0 t ticks m3))"
      by (rule relay_noRetransmission)
    with c have d: "noRetransmission m (fst (relayLoop W ivs peerId f fileId 0 0 t ticks m3))"
      by (rule noRetransmission_trans)
    then have "noRetransmission m
        ((fst (relayLoop W ivs peerId f fileId 0 0 t ticks m3))\<lparr>activeTransfers :=
            (activeTransfers (fst (relayLoop W ivs peerId f fileId 0 0 t ticks m3)))(fileId := None)\<rparr>)"
      by (simp add: noRetransmission_def)
    with d show ?thesis
      by (simp add: sendFileDataViaRelay_def Let_def m1_def [symmetric] r_def [symmetric]
          split_beta Inr m3_def [symmetric])
  qed
qed

text \<open>
  C3 (what the sender does instead). Whatever the file, the clock and the frames that
  arrive, \<open>_sendFileDataViaRelay\<close> hands no \<open>chunk\<close> frame with \<open>retry = true\<close> to the
  signaling socket: no chunk is ever retransmitted. When the flow-control wait finds
  the window full and the last ACK more than \<open>AckTimeout\<close> ago, it sends nothing and
  the transfer ends with an exception, which is a TypeError (the read of
  \<open>data.base64\<close> on \<open>undefined\<close>) as long as no pending chunk has its retry counter
  at \<open>MaxChunkRetries\<close>; the counter is never incremented.
\<close>

theorem relay_sender_never_retransmits:
  "noRetransmission m (fst (sendFileDataViaRelay W ivs kx now m peerId f fileId ticks))
   \<and> (activeTransfers st fid = Some transfer \<and> relaySt transfer = Some rs
        \<and> WINDOW_SIZE \<le> length (pendingChunks rs) \<and> ACK_TIMEOUT < t - lastAckTime rs \<longrightarrow>
        fst (flowControl W ivs peer f fid offset chunkIndex t tks st) = st
        \<and> (snd (flowControl W ivs peer f fid offset chunkIndex t tks st) = Threw TypeError
           \<or> snd (flowControl W ivs peer f fid offset chunkIndex t tks st) = Threw RetransmitExhausted)
        \<and> ((\<forall>p \<in> set (pendingChunks rs). retries (snd p) < MAX_CHUNK_RETRIES) \<longrightarrow>
             snd (flowControl W ivs peer f fid offset chunkIndex t tks st) = Threw TypeError))"
proof (intro conjI impI)
  show "noRetransmission m (fst (sendFileDataViaRelay W ivs kx now m peerId f fileId ticks))"
    by (rule sendFileDataViaRelay_noRetransmission)
next
  assume h: "activeTransfers st fid = Some transfer \<and> relaySt transfer = Some rs
        \<and> WINDOW_SIZE \<le> length (pendingChunks rs) \<and> ACK_TIMEOUT < t - lastAckTime rs"
  then have h1: "activeTransfers st fid = Some transfer" and h2: "relaySt transfer = Some rs"
    and h3: "WINDOW_SIZE \<le> length (pendingChunks rs)" and h4: "ACK_TIMEOUT < t - lastAckTime rs"
    by simp_all
  have eq: "flowControl W ivs peer f fid offset chunkIndex t tks st =
      (st, Threw (case retransmitOldest peer fid t rs st of Inl e \<Rightarrow> e | Inr x \<Rightarrow> TypeError))"
    using h1 h2 h3 h4 by (rule flowControl_stalled)
  show "fst (flowControl W ivs peer f fid offset chunkIndex t tks st) = st"
    by (simp add: eq)
  show "snd (flowControl W ivs peer f fid offset chunkIndex t tks st) = Threw TypeError
           \<or> snd (flowControl W ivs peer f fid offset chunkIndex t tks st) = Threw RetransmitExhausted"
    using retransmitOldest_cases [of peer fid t rs st] by (auto simp: eq)
  assume "\<forall>p \<in> set (pendingChunks rs). retries (snd p) < MAX_CHUNK_RETRIES"
  with h3 have "retransmitOldest peer fid t rs st = Inl TypeError"
    by (rule retransmitOldest_fresh)
  then show "snd (flowControl W ivs peer f fid offset chunkIndex t tks st) = Threw TypeError"
    by (simp add: eq)
qed

theorem relay_sender_never_retransmits_witness:
  "noRetransmission emptyManager
     (fst (sendFileDataViaRelay demoPlatform (\<lambda>i. (1, 2)) \<lparr>publicKey = ''pk'', keyArrives = None\<rparr> 0
             emptyManager ''bob'' demoFile ''f1'' demoSilent))
   \<and> flowControl demoPlatform (\<lambda>i. (1, 2)) ''bob'' demoFile ''f1'' 0 10 5001 [] demoStalled =
       (demoStalled, Threw TypeError)"
proof -
  define rs where "rs = \<lparr>ackedChunks = {}, pendingChunks = demoPending, lastAckTime = 0\<rparr>"
  define transfer where
    "transfer = \<lparr>atPeerId = ''bob'', atDirection = Send, cancelled = False, relaySt = Some rs\<rparr>"
  have h1: "activeTransfers demoStalled ''f1'' = Some transfer"
    by (simp add: demoStalled_def transfer_def rs_def)
  have h2: "relaySt transfer = Some rs" by (simp add: transfer_def)
  have h3: "WINDOW_SIZE \<le> length (pendingChunks rs)"
    by (simp add: rs_def demoPending_def WINDOW_SIZE_def)
  have h4: "ACK_TIMEOUT < 5001 - lastAckTime rs" by (simp add: rs_def ACK_TIMEOUT_def)
  have h5: "\<forall>p \<in> set (pendingChunks rs). retries (snd p) < MAX_CHUNK_RETRIES"
    by (auto simp: rs_def demoPending_def MAX_CHUNK_RETRIES_def)
  note w = relay_sender_never_retransmits [where m = emptyManager and W = demoPlatform
      and ivs = "\<lambda>i. (1, 2)" and kx = "\<lparr>publicKey = ''pk'', keyArrives = None\<rparr>" and now = 0
      and peerId = "''bob''" and f = demoFile and fileId = "''f1''" and ticks = demoSilent
      and st = demoStalled and fid = "''f1''" and transfer = transfer and rs = rs and t = 5001
      and peer = "''bob''" and offset = 0 and chunkIndex = 10 and tks = "[]"]
  have a: "noRetransmission emptyManager
     (fst (sendFileDataViaRelay demoPlatform (\<lambda>i. (1, 2)) \<lparr>publicKey = ''pk'', keyArrives = None\<rparr> 0
             emptyManager ''bob'' demoFile ''f1'' demoSilent))"
    using w by blast
  have b: "fst (flowControl demoPlatform (\<lambda>i. (1, 2)) ''bob'' demoFile ''f1'' 0 10 5001 [] demoStalled) =
      demoStalled"
    using w h1 h2 h3 h4 by blast
  have c: "snd (flowControl demoPlatform (\<lambda>i. (1, 2)) ''bob'' demoFile ''f1'' 0 10 5001 [] demoStalled) =
      Threw TypeError"
    using w h1 h2 h3 h4 h5 by blast
  from a b c show ?thesis by (simp add: prod_eq_iff)
qed

text \<open>
  The equations of the three loops at an empty and at a non-empty schedule; with them a
  run on a given schedule is evaluated tick by tick.
\<close>

lemmas ackWait_ticks =
  ackWait.simps [of _ _ _ _ _ "[]"] ackWait.simps [of _ _ _ _ _ "tk # rest"]
  for tk rest

lemmas relayLoop_ticks =
  relayLoop.simps [of _ _ _ _ _ _ _ _ "[]"] relayLoop.simps [of _ _ _ _ _ _ _ _ "tk # rest"]
  for tk rest

lemmas flowControl_ticks =
  flowControl.simps [of _ _ _ _ _ _ _ _ "[]"] flowControl.simps [of _ _ _ _ _ _ _ _ "tk # rest"]
  for tk rest

text \<open>
  Two runs against the claim. A sender whose window is full (ten chunks pending, the
  oldest sent at time 0) and that has had no ACK for 5001 ms does not retransmit chunk
  0: the transfer ends with a TypeError and nothing is sent. And in the transfer of a
  one-chunk file whose only chunk is never acknowledged, the sender is awake 5 s after
  the chunk went out and does not send it again; once 10 s have passed it sends
  \<open>file-end\<close> and completes, having sent \<open>file-start\<close>, the chunk once, and \<open>file-end\<close>.
\<close>

theorem unacked_chunk_not_retransmitted_counterexample:
  "flowControl demoPlatform (\<lambda>i. (1, 2)) ''bob'' demoFile ''f1'' 0 10 5001 [] demoStalled =
       (demoStalled, Threw TypeError)
   \<and> (case sendFileDataViaRelay demoPlatform (\<lambda>i. (1, 2)) \<lparr>publicKey = ''pk'', keyArrives = None\<rparr> 0
              (emptyManager\<lparr>crypto := demoSender\<rparr>) ''bob'' demoFile ''f1'' demoSilent of
         (m, out) \<Rightarrow> (out, map isRetransmission (effects m), last (effects m))) =
       (Completed, [False, False, False], Signal (RelayData ''bob'' (RFileEnd ''f1'' (Some 1))))"
proof -
  define rs where "rs = \<lparr>ackedChunks = {}, pendingChunks = demoPending, lastAckTime = 0\<rparr>"
  define transfer where
    "transfer = \<lparr>atPeerId = ''bob'', atDirection = Send, cancelled = False, relaySt = Some rs\<rparr>"
  have h1: "activeTransfers demoStalled ''f1'' = Some transfer"
    by (simp add: demoStalled_def transfer_def rs_def)
  have h2: "relaySt transfer = Some rs" by (simp add: transfer_def)
  have h3: "WINDOW_SIZE \<le> length (pendingChunks rs)"
    by (simp add: rs_def demoPending_def WINDOW_SIZE_def)
  have h4: "ACK_TIMEOUT < 5001 - lastAckTime rs" by (simp add: rs_def ACK_TIMEOUT_def)
  have h5: "\<forall>p \<in> set (pendingChunks rs). retries (snd p) < MAX_CHUNK_RETRIES"
    by (auto simp: rs_def demoPending_def MAX_CHUNK_RETRIES_def)
  have stalled: "flowControl demoPlatform (\<lambda>i. (1, 2)) ''bob'' demoFile ''f1'' 0 10 5001 [] demoStalled =
       (demoStalled, Threw TypeError)"
    by (simp add: flowControl_stalled [OF h1 h2 h3 h4] retransmitOldest_fresh [OF h3 h5])
  have e: "\<And>xs. encryptChunk demoPlatform demoSender ''bob'' 1 2 xs =
      Inr (12 # ivBytes 1 @ ivBytes 2 @
           aesGcmEncrypt demoPlatform [1, 2, 3, 4] (ivBytes 2) (aesGcmEncrypt demoPlatform [9, 9] (ivBytes 1) xs))"
    by (rule encryptChunk_room) (simp_all add: demoSender_def hasRoomPassword_def)
  have k: "hasSharedSecret demoSender ''bob''"
    by (simp add: hasSharedSecret_def demoSender_def)
  have run: "(case sendFileDataViaRelay demoPlatform (\<lambda>i. (1, 2)) \<lparr>publicKey = ''pk'', keyArrives = None\<rparr> 0
              (emptyManager\<lparr>crypto := demoSender\<rparr>) ''bob'' demoFile ''f1'' demoSilent of
         (m, out) \<Rightarrow> (out, map isRetransmission (effects m), last (effects m))) =
       (Completed, [False, False, False], Signal (RelayData ''bob'' (RFileEnd ''f1'' (Some 1))))"
    by (simp add: sendFileDataViaRelay_def relayLoop_ticks flowControl_ticks ackWait_ticks
        sendFileEnd_def suspended_def e k emptyManager_def emit_def totalChunks_div demoFile_def
        CHUNK_SIZE_def trackPending_def setPending_def sendChunk_def WINDOW_SIZE_def
        TRANSFER_TIMEOUT_def ACK_TIMEOUT_def Let_def demoSilent_def)
  from stalled run show ?thesis by (rule conjI)
qed

end
